theory Spec2Isabelle
  imports Main "HOL-Library.Stream"
begin

section \<open>Strings and number conversion\<close>

text \<open>
  Go strings are byte sequences; a byte is a \<^typ>\<open>char\<close> and \<open>byte c\<close> is its code.
  \<open>strings.Contains s sub\<close> holds when \<open>sub\<close> occurs in \<open>s\<close> as a contiguous block.
\<close>

definition byte :: "char \<Rightarrow> nat" where
  "byte c = of_char c"

fun HasPrefix :: "string \<Rightarrow> string \<Rightarrow> bool" where
  "HasPrefix s [] = True"
| "HasPrefix [] (p # ps) = False"
| "HasPrefix (c # cs) (p # ps) = (c = p \<and> HasPrefix cs ps)"

fun Contains :: "string \<Rightarrow> string \<Rightarrow> bool" where
  "Contains [] sub = (sub = [])"
| "Contains (c # cs) sub = (HasPrefix (c # cs) sub \<or> Contains cs sub)"

text \<open>
  \<open>strconv.FormatInt(i, 10)\<close>: the decimal digits of \<open>i\<close>, most significant first, after a
  minus sign when \<open>i\<close> is negative.
\<close>

fun digits10 :: "nat \<Rightarrow> string" where
  "digits10 n =
     (if n < 10 then [char_of (48 + n)]
      else digits10 (n div 10) @ [char_of (48 + n mod 10)])"

declare digits10.simps [simp del]

definition FormatInt :: "int \<Rightarrow> string" where
  "FormatInt i = (if i < 0 then CHR ''-'' # digits10 (nat (- i)) else digits10 (nat i))"

text \<open>
  \<open>strconv.ParseInt(s, 0, 0)\<close>, the only way the package calls it: base 0 takes the base
  from the prefix of the string (\<open>0b\<close>, \<open>0o\<close>, \<open>0x\<close>, a bare leading \<open>0\<close> for octal,
  decimal otherwise) and allows underscores as digit separators; bit size 0 is the size of
  \<open>int\<close>, 64 bits. The accumulator of \<open>ParseUint\<close> is a \<open>uint64\<close>: the sum \<open>n * base + d\<close>
  is taken modulo \<open>2 ^ 64\<close> and the wrap is what the range check \<open>n1 < n\<close> detects.
  \<open>lower\<close> sets bit 5 of a byte, which is what \<open>c | ('x' - 'X')\<close> does.
\<close>

datatype NumError = ErrSyntax | ErrRange

definition lower :: "nat \<Rightarrow> nat" where
  "lower b = (if (b div 32) mod 2 = 0 then b + 32 else b)"

definition digit_of :: "char \<Rightarrow> nat option" where
  "digit_of c =
     (if 48 \<le> byte c \<and> byte c \<le> 57 then Some (byte c - 48)
      else if 97 \<le> lower (byte c) \<and> lower (byte c) \<le> 122 then Some (lower (byte c) - 97 + 10)
      else None)"

definition maxUint64 :: nat where
  "maxUint64 = 2 ^ 64 - 1"

fun ParseUint_loop :: "nat \<Rightarrow> string \<Rightarrow> nat \<Rightarrow> NumError + nat" where
  "ParseUint_loop base [] n = Inr n"
| "ParseUint_loop base (c # cs) n =
     (if c = CHR ''_'' then ParseUint_loop base cs n
      else case digit_of c of
        None \<Rightarrow> Inl ErrSyntax
      | Some d \<Rightarrow>
          if d \<ge> base then Inl ErrSyntax
          else if n \<ge> maxUint64 div base + 1 then Inl ErrRange
          else let n1 = (n * base + d) mod 2 ^ 64 in
            if n1 < n * base \<or> n1 > maxUint64 then Inl ErrRange
            else ParseUint_loop base cs n1)"

fun underscoreOK_loop :: "bool \<Rightarrow> char \<Rightarrow> string \<Rightarrow> bool" where
  "underscoreOK_loop hex saw [] = (saw \<noteq> CHR ''_'')"
| "underscoreOK_loop hex saw (c # cs) =
     (if (48 \<le> byte c \<and> byte c \<le> 57) \<or> (hex \<and> 97 \<le> lower (byte c) \<and> lower (byte c) \<le> 102)
      then underscoreOK_loop hex (CHR ''0'') cs
      else if c = CHR ''_''
      then (if saw \<noteq> CHR ''0'' then False else underscoreOK_loop hex (CHR ''_'') cs)
      else if saw = CHR ''_'' then False
      else underscoreOK_loop hex (CHR ''!'') cs)"

definition underscoreOK :: "string \<Rightarrow> bool" where
  "underscoreOK s0 =
     (let s = (if s0 \<noteq> [] \<and> (hd s0 = CHR ''-'' \<or> hd s0 = CHR ''+'') then tl s0 else s0) in
      if length s \<ge> 2 \<and> s ! 0 = CHR ''0'' \<and>
         (lower (byte (s ! 1)) = 98 \<or> lower (byte (s ! 1)) = 111 \<or> lower (byte (s ! 1)) = 120)
      then underscoreOK_loop (lower (byte (s ! 1)) = 120) (CHR ''0'') (drop 2 s)
      else underscoreOK_loop False (CHR ''^'') s)"

definition base_prefix :: "string \<Rightarrow> nat \<times> string" where
  "base_prefix s =
     (if hd s = CHR ''0'' then
        (if length s \<ge> 3 \<and> lower (byte (s ! 1)) = 98 then (2, drop 2 s)
         else if length s \<ge> 3 \<and> lower (byte (s ! 1)) = 111 then (8, drop 2 s)
         else if length s \<ge> 3 \<and> lower (byte (s ! 1)) = 120 then (16, drop 2 s)
         else (8, drop 1 s))
      else (10, s))"

definition ParseUint :: "string \<Rightarrow> NumError + nat" where
  "ParseUint s0 =
     (if s0 = [] then Inl ErrSyntax
      else case base_prefix s0 of (base, s) \<Rightarrow>
        (case ParseUint_loop base s 0 of
           Inl e \<Rightarrow> Inl e
         | Inr n \<Rightarrow>
             if CHR ''_'' \<in> set s \<and> \<not> underscoreOK s0 then Inl ErrSyntax else Inr n))"

definition ParseInt :: "string \<Rightarrow> NumError + int" where
  "ParseInt s0 =
     (if s0 = [] then Inl ErrSyntax
      else
        let neg = (hd s0 = CHR ''-'');
            s = (if hd s0 = CHR ''+'' \<or> hd s0 = CHR ''-'' then tl s0 else s0)
        in case ParseUint s of
             Inl ErrSyntax \<Rightarrow> Inl ErrSyntax
           | Inl ErrRange \<Rightarrow> Inl ErrRange
           | Inr un \<Rightarrow>
               if \<not> neg \<and> un \<ge> 2 ^ 63 then Inl ErrRange
               else if neg \<and> un > 2 ^ 63 then Inl ErrRange
               else Inr (if neg then - int un else int un))"

text \<open>A Go \<open>int\<close> (64 bits) as an integer of the model.\<close>

definition is_int :: "int \<Rightarrow> bool" where
  "is_int i = (- (2 ^ 63) \<le> i \<and> i < 2 ^ 63)"

section \<open>List parameters\<close>

record ListParams =
  Filter :: string
  Limit :: int
  Sort :: string
  Offset :: int

text \<open>Reading a Go map at a missing key (or reading a nil map) gives the empty string.\<close>

definition at :: "(string \<rightharpoonup> string) \<Rightarrow> string \<Rightarrow> string" where
  "at m k = (case m k of None \<Rightarrow> [] | Some v \<Rightarrow> v)"

definition ToMap :: "ListParams \<Rightarrow> (string \<rightharpoonup> string)" where
  "ToMap s =
     (let r = Map.empty;
          r = (if Filter s \<noteq> [] then r(''filter'' \<mapsto> Filter s) else r);
          r = (if Limit s \<noteq> 0 then r(''limit'' \<mapsto> FormatInt (Limit s)) else r);
          r = (if Sort s \<noteq> [] then r(''sort'' \<mapsto> Sort s) else r);
          r = (if Offset s \<noteq> 0 then r(''offset'' \<mapsto> FormatInt (Offset s)) else r)
      in r)"

datatype panic = NumErrorPanic NumError | TypeAssertionPanic | NilDereferencePanic

definition ListParamsFromMap :: "(string \<rightharpoonup> string) \<Rightarrow> panic + ListParams" where
  "ListParamsFromMap m =
     (let lp = \<lparr>Filter = at m ''filter'', Limit = 0, Sort = at m ''sort'', Offset = 0\<rparr> in
      case (if at m ''offset'' \<noteq> [] then ParseInt (at m ''offset'') else Inr 0) of
        Inl e \<Rightarrow> Inl (NumErrorPanic e)
      | Inr o1 \<Rightarrow>
          (case (if at m ''limit'' \<noteq> [] then ParseInt (at m ''limit'') else Inr 0) of
             Inl e \<Rightarrow> Inl (NumErrorPanic e)
           | Inr o2 \<Rightarrow> Inr (lp\<lparr>Offset := o1, Limit := o2\<rparr>)))"

section \<open>Errors and the error classifier\<close>

text \<open>
  The package's error values. \<open>StatusError k\<close> is the entry of the table \<open>badStatus\<close> at
  key \<open>k\<close>; the table's entries are compared by identity in the source, so each is a
  constructor of its own. \<open>TransportError\<close> is an error of the HTTP transport and
  \<open>UnmarshalError\<close> one of the JSON decoder, each with its message.
\<close>

datatype error =
    ErrRetryTimeout
  | StatusError int
  | TransportError string
  | UnmarshalError string

definition RetryTimeout :: int where "RetryTimeout = 300"
definition InvalidRequest :: int where "InvalidRequest = 400"
definition PermissionDenied :: int where "PermissionDenied = 401"
definition Retry503 :: int where "Retry503 = 503"
definition ConnectionError :: int where "ConnectionError = 9998"
definition RetryRequestAfterLogin :: int where "RetryRequestAfterLogin = 9999"

definition badStatus :: "int \<rightharpoonup> error" where
  "badStatus k =
     (if k = InvalidRequest \<or> k = PermissionDenied \<or> k = Retry503 \<or>
         k = ConnectionError \<or> k = RetryRequestAfterLogin
      then Some (StatusError k) else None)"

fun Error :: "error \<Rightarrow> string" where
  "Error ErrRetryTimeout =
     ''timeout reached before request completed successfully during retries''"
| "Error (StatusError k) =
     (if k = InvalidRequest then ''InvalidRequest''
      else if k = PermissionDenied then ''PermissionDenied''
      else if k = Retry503 then ''Retry503''
      else if k = ConnectionError then ''ConnectionError''
      else ''RetryRequestAfterLogin'')"
| "Error (TransportError msg) = msg"
| "Error (UnmarshalError msg) = msg"

definition VERSION :: string where "VERSION = ''1.1.5''"
definition DateraDriver :: string where "DateraDriver = ''Golang-SDK-'' @ VERSION"

record ApiErrorResponse =
  Name :: string
  Code :: int
  Http :: int
  Message :: string
  Ts :: string
  Version :: string
  Op :: string
  Tenant :: string
  Path :: string
  Params_e :: "string \<rightharpoonup> string"
  ConnInfo :: "string \<rightharpoonup> string"
  ClientId :: string
  ClientType :: string
  Id :: int
  TenancyClass :: string
  Errors :: "string list"

record ApiLogin =
  Key :: string
  Version_l :: string
  ReqTime_l :: int

text \<open>
  Values decoded into \<open>interface{}\<close>. A JSON number decodes to a \<open>float64\<close>; the model
  keeps the integer that the conversion \<open>int(...)\<close> makes of it.
\<close>

datatype json =
    JNull
  | JBool bool
  | JNumber int
  | JString string
  | JArray "json list"
  | JObject "(string \<times> json) list"

record ApiListOuter =
  Data :: "json list"
  Version_o :: string
  Metadata :: "string \<rightharpoonup> json"
  ReqTime :: int
  Tenant_o :: string
  Path_o :: string

text \<open>
  The holder \<open>rs\<close> that a call decodes the response into: the login reply, or the
  envelope of a list.
\<close>

datatype holder = LoginHolder ApiLogin | ListHolder ApiListOuter

text \<open>
  A response body, as far as \<open>resp.JSON\<close> reads it: the value found for each field of the
  holder (\<open>None\<close> when the body has no such key) and the error \<open>json.Unmarshal\<close> returns,
  if any. A field the body names replaces the holder's; a metadata object is merged
  into the holder's map, its entries overriding; a field the body does not name keeps
  the holder's value.
\<close>

record Body =
  unmarshal_error :: "string option"
  key_b :: "string option"
  data_b :: "json list option"
  metadata_b :: "(string \<rightharpoonup> json) option"
  version_b :: "string option"
  request_time_b :: "int option"
  tenant_b :: "string option"
  path_b :: "string option"

definition orElse :: "'a option \<Rightarrow> 'a \<Rightarrow> 'a" where
  "orElse x d = (case x of None \<Rightarrow> d | Some v \<Rightarrow> v)"

fun JSON :: "Body \<Rightarrow> holder \<Rightarrow> error option \<times> holder" where
  "JSON b (LoginHolder l) =
     (map_option UnmarshalError (unmarshal_error b),
      LoginHolder \<lparr>Key = orElse (key_b b) (Key l),
                   Version_l = orElse (version_b b) (Version_l l),
                   ReqTime_l = orElse (request_time_b b) (ReqTime_l l)\<rparr>)"
| "JSON b (ListHolder r) =
     (map_option UnmarshalError (unmarshal_error b),
      ListHolder \<lparr>Data = orElse (data_b b) (Data r),
                  Version_o = orElse (version_b b) (Version_o r),
                  Metadata = (case metadata_b b of None \<Rightarrow> Metadata r | Some m \<Rightarrow> Metadata r ++ m),
                  ReqTime = orElse (request_time_b b) (ReqTime r),
                  Tenant_o = orElse (tenant_b b) (Tenant_o r),
                  Path_o = orElse (path_b b) (Path_o r)\<rparr>)"

text \<open>
  The response of the HTTP library: \<open>errorJSON\<close> is the error structure that
  \<open>resp.JSON(eresp)\<close> leaves in a fresh \<open>ApiErrorResponse\<close> (whether or not decoding
  succeeded: the source only logs a failure), \<open>body\<close> what a holder reads from it.
\<close>

record Response =
  Ok :: bool
  StatusCode :: int
  errorJSON :: ApiErrorResponse
  body :: Body

definition translateErrors ::
  "Response \<Rightarrow> error option \<Rightarrow> ApiErrorResponse option \<times> error option" where
  "translateErrors resp err =
     (case err of
        Some e \<Rightarrow>
          if Contains (Error e) ''connect: connection refused''
          then (None, badStatus ConnectionError)
          else (None, Some e)
      | None \<Rightarrow>
          if \<not> Ok resp then
            let eresp = errorJSON resp;
                eresp = (if Http eresp = 0 then eresp\<lparr>Http := StatusCode resp\<rparr> else eresp)
            in (Some eresp, badStatus (StatusCode resp))
          else (None, None))"

section \<open>The connection and its environment\<close>

record RequestOptions =
  Params :: "(string \<rightharpoonup> string) option"
  Headers :: "(string \<rightharpoonup> string) option"
  Data_ro :: "(string \<rightharpoonup> string) option"

definition no_options :: RequestOptions where
  "no_options = \<lparr>Params = None, Headers = None, Data_ro = None\<rparr>"

text \<open>
  What one call of the HTTP library gives back: the response, the message of the
  transport error if there is one, and the seconds the call took.
\<close>

record reply =
  response :: Response
  failure :: "string option"
  took :: nat

text \<open>The effects a caller can observe: the requests sent and the sleeps.\<close>

datatype event = Sent string string RequestOptions | Slept int

record ApiConnection =
  username :: string
  password :: string
  apiVersion :: string
  tenant :: string
  secure :: bool
  ldap :: string
  apikey :: string

text \<open>
  The connection together with what surrounds it: the clock (\<open>time.Now().Unix()\<close>, in
  seconds), the replies the transport will give to the requests still to come, in
  order, and the trace of effects so far. One thread runs; the lock of the connection
  is not modelled.
\<close>

record world = ApiConnection +
  now :: int
  replies :: "reply stream"
  trace :: "event list"

definition hasLoggedIn :: "world \<Rightarrow> bool" where
  "hasLoggedIn c = (apikey c \<noteq> [])"

definition Logout :: "world \<Rightarrow> world" where
  "Logout c = c\<lparr>apikey := []\<rparr>"

definition Sleep :: "int \<Rightarrow> world \<Rightarrow> world" where
  "Sleep d c = c\<lparr>now := now c + d, trace := trace c @ [Slept d]\<rparr>"

definition DoRegularRequest ::
  "string \<Rightarrow> string \<Rightarrow> RequestOptions \<Rightarrow> world \<Rightarrow> reply \<times> world" where
  "DoRegularRequest method url ro c =
     (shd (replies c),
      c\<lparr>now := now c + int (took (shd (replies c))),
        replies := stl (replies c),
        trace := trace c @ [Sent method url ro]\<rparr>)"

definition set_header :: "string \<Rightarrow> string \<Rightarrow> RequestOptions \<Rightarrow> RequestOptions" where
  "set_header k v ro = ro\<lparr>Headers := Some ((orElse (Headers ro) Map.empty)(k \<mapsto> v))\<rparr>"

definition new_login :: ApiLogin where
  "new_login = \<lparr>Key = [], Version_l = [], ReqTime_l = 0\<rparr>"

definition login_options :: "world \<Rightarrow> RequestOptions" where
  "login_options c =
     \<lparr>Params = None, Headers = None,
      Data_ro = Some (let d = [''name'' \<mapsto> username c, ''password'' \<mapsto> password c]
                      in if ldap c \<noteq> [] then d(''remote_server'' \<mapsto> ldap c) else d)\<rparr>"

definition login_key :: "holder \<Rightarrow> string" where
  "login_key rs = (case rs of LoginHolder l \<Rightarrow> Key l | ListHolder r \<Rightarrow> [])"

type_synonym result = "(ApiErrorResponse option \<times> error option) \<times> RequestOptions \<times> holder \<times> world"

section \<open>The request pipeline, the retry loop and the login\<close>

text \<open>
  \<open>do\<close> (here \<open>do_req\<close>), \<open>retry\<close> and \<open>Login\<close> call each other, and neither the replay
  after a 401 nor a chain of them is bounded by the code. They are defined together, as the cases of one
  function \<open>run\<close> over the call to make: its first argument is fuel, one unit per call,
  and \<open>None\<close> means that the fuel ran out before the call returned. The request options
  and the holder are pointers in the source; the model returns them as the call leaves
  them (for \<open>Login\<close>, its own). \<open>canRetry\<close>, \<open>isSensitive\<close> and \<open>allowLogin\<close> are \<open>True\<close>.
  The log lines, and the \<open>sensitive\<close> flag which only they read, have no effect on a
  result.

  In \<open>retry\<close> the loop body declares its own \<open>apiresp\<close> and \<open>err\<close> (\<open>:=\<close>); the \<open>apiresp\<close>
  returned with \<open>ErrRetryTimeout\<close> after the loop is the variable declared before the
  loop, which is never assigned: it is nil.
\<close>

datatype call =
    Do string string RequestOptions holder bool bool bool
  | Retry string string RequestOptions holder bool bool
  | RetryLoop int int string string RequestOptions holder bool bool
  | LoginCall

primrec run :: "nat \<Rightarrow> call \<Rightarrow> world \<Rightarrow> result option" where
  "run 0 k c = None"
| "run (Suc n) k c =
     (case k of
        Do method url ro rs rtry sensitive allowLogin \<Rightarrow>
          (let ro1 = set_header ''Datera-Driver'' DateraDriver ro;
               (r, c1) = DoRegularRequest method url ro1 c;
               (eresp, err) = translateErrors (response r) (map_option TransportError (failure r))
           in
             if err = badStatus PermissionDenied then
               (if allowLogin \<and> hasLoggedIn c1 then
                  (case run n LoginCall (Logout c1) of
                     None \<Rightarrow> None
                   | Some ((apiresp, err2), ro2, rs2, c2) \<Rightarrow>
                       if apiresp \<noteq> None \<or> err2 \<noteq> None then Some ((apiresp, err2), ro1, rs, c2)
                       else run n (Do method url (set_header ''Auth-Token'' (apikey c2) ro1) rs
                                     False sensitive allowLogin) c2)
                else Some ((eresp, None), ro1, rs, c1))
             else if rtry \<and> (err = badStatus Retry503 \<or> err = badStatus ConnectionError) then
               run n (Retry method url ro1 rs sensitive allowLogin) c1
             else if eresp \<noteq> None then Some ((eresp, None), ro1, rs, c1)
             else if err \<noteq> None then Some ((None, err), ro1, rs, c1)
             else
               (case JSON (body (response r)) rs of
                  (Some e, rs1) \<Rightarrow> Some ((None, Some e), ro1, rs1, c1)
                | (None, rs1) \<Rightarrow> Some ((None, None), ro1, rs1, c1)))
      | Retry method url ro rs sensitive allowLogin \<Rightarrow>
          run n (RetryLoop (now c) 1 method url ro rs sensitive allowLogin) c
      | RetryLoop t1 backoff method url ro rs sensitive allowLogin \<Rightarrow>
          (if now c - t1 < RetryTimeout then
             (case run n (Do method url ro rs False sensitive allowLogin) c of
                None \<Rightarrow> None
              | Some ((apiresp, err), ro1, rs1, c1) \<Rightarrow>
                  if apiresp = None \<and> err = None then Some ((None, None), ro1, rs1, c1)
                  else if (case apiresp of None \<Rightarrow> False | Some a \<Rightarrow> Http a \<noteq> 503) then
                    Some ((apiresp, None), ro1, rs1, c1)
                  else if (case err of None \<Rightarrow> False
                           | Some e \<Rightarrow> \<not> Contains (Error e) ''connect: connection refused'') then
                    Some ((None, err), ro1, rs1, c1)
                  else
                    run n (RetryLoop t1 (backoff + 1) method url ro1 rs1 sensitive allowLogin)
                      (Sleep (backoff * backoff) c1))
           else Some ((None, Some ErrRetryTimeout), ro, rs, c))
      | LoginCall \<Rightarrow>
          (if apikey c \<noteq> [] then Some ((None, None), login_options c, LoginHolder new_login, c)
           else
             (case run n (Do ''PUT'' ''login'' (login_options c) (LoginHolder new_login)
                            True True False) c of
                None \<Rightarrow> None
              | Some ((apiresp, err), ro1, login, c1) \<Rightarrow>
                  if (case apiresp of None \<Rightarrow> False | Some a \<Rightarrow> Http a = PermissionDenied) \<or>
                     (err \<noteq> None \<and> err = badStatus PermissionDenied)
                  then Some ((apiresp, err), ro1, login, c1\<lparr>apikey := []\<rparr>)
                  else Some ((apiresp, err), ro1, login, c1\<lparr>apikey := login_key login\<rparr>))))"

definition do_req ::
  "nat \<Rightarrow> string \<Rightarrow> string \<Rightarrow> RequestOptions \<Rightarrow> holder \<Rightarrow> bool \<Rightarrow> bool \<Rightarrow> bool \<Rightarrow> world
    \<Rightarrow> result option" where
  "do_req n method url ro rs rtry sensitive allowLogin c =
     run n (Do method url ro rs rtry sensitive allowLogin) c"

definition retry ::
  "nat \<Rightarrow> string \<Rightarrow> string \<Rightarrow> RequestOptions \<Rightarrow> holder \<Rightarrow> bool \<Rightarrow> bool \<Rightarrow> world
    \<Rightarrow> result option" where
  "retry n method url ro rs sensitive allowLogin c =
     run n (Retry method url ro rs sensitive allowLogin) c"

definition retry_loop ::
  "nat \<Rightarrow> int \<Rightarrow> int \<Rightarrow> string \<Rightarrow> string \<Rightarrow> RequestOptions \<Rightarrow> holder \<Rightarrow> bool \<Rightarrow> bool
    \<Rightarrow> world \<Rightarrow> result option" where
  "retry_loop n t1 backoff method url ro rs sensitive allowLogin c =
     run n (RetryLoop t1 backoff method url ro rs sensitive allowLogin) c"

definition Login ::
  "nat \<Rightarrow> world \<Rightarrow> ((ApiErrorResponse option \<times> error option) \<times> world) option" where
  "Login n c = map_option (\<lambda>(r, ro, rs, c1). (r, c1)) (run n LoginCall c)"

definition doWithAuth ::
  "nat \<Rightarrow> string \<Rightarrow> string \<Rightarrow> RequestOptions option \<Rightarrow> holder \<Rightarrow> world \<Rightarrow> result option" where
  "doWithAuth n method url ro rs c =
     (let ro1 = orElse ro no_options in
      case (if \<not> hasLoggedIn c then Login n c else Some ((None, None), c)) of
        None \<Rightarrow> None
      | Some ((apierr, err), c1) \<Rightarrow>
          if apierr \<noteq> None \<or> err \<noteq> None then Some ((apierr, err), ro1, rs, c1)
          else
            do_req n method url
              (ro1\<lparr>Headers := Some [''tenant'' \<mapsto> tenant c1, ''Auth-Token'' \<mapsto> apikey c1]\<rparr>)
              rs True False True c1)"

section \<open>The list paginator\<close>

text \<open>
  \<open>GetList\<close> returns the envelope, the API error and the error, or panics. Its \<open>ro\<close> may
  be nil: \<open>doWithAuth\<close> then works on options of its own and the caller's stay nil. The
  loop compares \<open>ldata\<close>, the length of the first page, with the \<open>tcnt\<close> declared before
  the loop, which stays 0 (the body declares its own \<open>tcnt\<close> with \<open>:=\<close>). Go does not bound
  the loop; the fuel does, one unit per page.
\<close>

definition new_list :: ApiListOuter where
  "new_list = \<lparr>Data = [], Version_o = [], Metadata = Map.empty, ReqTime = 0,
                Tenant_o = [], Path_o = []\<rparr>"

definition list_of :: "holder \<Rightarrow> ApiListOuter" where
  "list_of rs = (case rs of ListHolder r \<Rightarrow> r | LoginHolder l \<Rightarrow> new_list)"

type_synonym list_result =
  "(panic + ApiListOuter \<times> ApiErrorResponse option \<times> error option) \<times> RequestOptions option \<times> world"

fun GetList_loop ::
  "nat \<Rightarrow> string \<Rightarrow> nat \<Rightarrow> json list \<Rightarrow> int \<Rightarrow> RequestOptions \<Rightarrow> ApiListOuter
    \<Rightarrow> ApiErrorResponse option \<Rightarrow> error option \<Rightarrow> world \<Rightarrow> list_result option" where
  "GetList_loop 0 url ldata data offset ro rs apiresp0 err0 c = None"
| "GetList_loop (Suc n) url ldata data offset ro rs apiresp0 err0 c =
     (if ldata \<noteq> 0 then
        (case Metadata rs ''total_count'' of
           Some (JNumber tcnt) \<Rightarrow>
             (let offset1 = offset + int (length (Data rs)) in
              if offset1 \<ge> tcnt then Some (Inr (rs\<lparr>Data := data\<rparr>, apiresp0, err0), Some ro, c)
              else
                let ro1 = (case Params ro of
                             None \<Rightarrow>
                               ro\<lparr>Params := Some (ToMap \<lparr>Filter = [], Limit = 0, Sort = [],
                                                          Offset = offset1\<rparr>)\<rparr>
                           | Some m \<Rightarrow> ro\<lparr>Params := Some (m(''offset'' \<mapsto> FormatInt offset1))\<rparr>)
                in case doWithAuth n ''GET'' url (Some ro1) (ListHolder (rs\<lparr>Data := []\<rparr>)) c of
                     None \<Rightarrow> None
                   | Some ((apiresp, err), ro2, rs2, c2) \<Rightarrow>
                       if apiresp \<noteq> None \<or> err \<noteq> None
                       then Some (Inr ((list_of rs2)\<lparr>Data := data\<rparr>, apiresp, err), Some ro2, c2)
                       else GetList_loop n url ldata (data @ Data (list_of rs2)) offset1 ro2
                              (list_of rs2) apiresp0 err0 c2)
         | _ \<Rightarrow> Some (Inl TypeAssertionPanic, Some ro, c))
      else Some (Inr (rs\<lparr>Data := data\<rparr>, apiresp0, err0), Some ro, c))"

definition GetList :: "nat \<Rightarrow> string \<Rightarrow> RequestOptions option \<Rightarrow> world \<Rightarrow> list_result option" where
  "GetList n url ro c =
     (case doWithAuth n ''GET'' url ro (ListHolder new_list) c of
        None \<Rightarrow> None
      | Some ((apiresp, err), ro1, rs1, c1) \<Rightarrow>
          let ro2 = map_option (\<lambda>x. ro1) ro;
              rs = list_of rs1
          in
            if apiresp = None \<and> dom (Metadata rs) \<noteq> {} then
              (case ro2 of
                 None \<Rightarrow> Some (Inl NilDereferencePanic, ro2, c1)
               | Some ro3 \<Rightarrow>
                   (case ListParamsFromMap (orElse (Params ro3) Map.empty) of
                      Inl p \<Rightarrow> Some (Inl p, ro2, c1)
                    | Inr lp \<Rightarrow>
                        if Limit lp \<noteq> 0 \<or> Offset lp \<noteq> 0 then Some (Inr (rs, apiresp, err), ro2, c1)
                        else GetList_loop n url (length (Data rs)) (Data rs) 0 ro3 rs apiresp err c1))
            else Some (Inr (rs, apiresp, err), ro2, c1))"

section \<open>Replies and connections to run the code on\<close>

definition new_error :: ApiErrorResponse where
  "new_error = \<lparr>Name = [], Code = 0, Http = 0, Message = [], Ts = [], Version = [], Op = [],
                 Tenant = [], Path = [], Params_e = Map.empty, ConnInfo = Map.empty,
                 ClientId = [], ClientType = [], Id = 0, TenancyClass = [], Errors = []\<rparr>"

definition no_body :: Body where
  "no_body = \<lparr>unmarshal_error = None, key_b = None, data_b = None, metadata_b = None,
               version_b = None, request_time_b = None, tenant_b = None, path_b = None\<rparr>"

definition status_reply :: "int \<Rightarrow> reply" where
  "status_reply code =
     \<lparr>response = \<lparr>Ok = False, StatusCode = code, errorJSON = new_error, body = no_body\<rparr>,
      failure = None, took = 0\<rparr>"

definition ok_reply :: "Body \<Rightarrow> reply" where
  "ok_reply b =
     \<lparr>response = \<lparr>Ok = True, StatusCode = 200, errorJSON = new_error, body = b\<rparr>,
      failure = None, took = 0\<rparr>"

definition failed_reply :: "string \<Rightarrow> reply" where
  "failed_reply msg =
     \<lparr>response = \<lparr>Ok = False, StatusCode = 0, errorJSON = new_error, body = no_body\<rparr>,
      failure = Some msg, took = 0\<rparr>"

definition key_reply :: "string \<Rightarrow> reply" where
  "key_reply k = ok_reply (no_body\<lparr>key_b := Some k\<rparr>)"

definition page_reply :: "json list \<Rightarrow> (string \<rightharpoonup> json) \<Rightarrow> reply" where
  "page_reply items meta = ok_reply (no_body\<lparr>data_b := Some items, metadata_b := Some meta\<rparr>)"

definition connection :: "string \<Rightarrow> reply stream \<Rightarrow> world" where
  "connection token rs =
     \<lparr>username = ''admin'', password = ''password'', apiVersion = ''2.2'', tenant = ''/root'',
      secure = False, ldap = [], apikey = token, now = 0, replies = rs, trace = []\<rparr>"

section \<open>Predicates and projections used in the statements\<close>

text \<open>
  \<open>observed\<close> keeps, of a call's result, the pair returned and the effects in the trace,
  without the options of each request; \<open>login_observed\<close> does the same for \<open>Login\<close> and
  adds the token it leaves. \<open>FromMap_ToMap\<close> takes a query-parameter map to list parameters and back. A value is
  \<open>canonical\<close> when it is absent or the decimal rendering, as \<open>FormatInt\<close> writes it, of
  the non-zero integer that \<open>ParseInt\<close> reads from it.
\<close>

datatype effect = Request string string | Pause int

fun label :: "event \<Rightarrow> effect" where
  "label (Sent method url ro) = Request method url"
| "label (Slept d) = Pause d"

definition observed ::
  "result option \<Rightarrow> ((ApiErrorResponse option \<times> error option) \<times> effect list) option" where
  "observed r = map_option (\<lambda>(x, ro, rs, c). (x, map label (trace c))) r"

text \<open>
  Kinds of reply: \<open>denied\<close> is a 401 response, \<open>succeeds\<close> a response with success status
  whose body decodes without error. \<open>cycles n d l s\<close> is the stream that starts with \<open>n\<close>
  times the replies \<open>d\<close>, \<open>l\<close> and goes on as \<open>s\<close>.
\<close>

definition denied :: "reply \<Rightarrow> bool" where
  "denied r = (failure r = None \<and> \<not> Ok (response r) \<and> StatusCode (response r) = PermissionDenied)"

definition succeeds :: "reply \<Rightarrow> bool" where
  "succeeds r = (failure r = None \<and> Ok (response r) \<and> unmarshal_error (body (response r)) = None)"

fun cycles :: "nat \<Rightarrow> reply \<Rightarrow> reply \<Rightarrow> reply stream \<Rightarrow> reply stream" where
  "cycles 0 d l s = s"
| "cycles (Suc n) d l s = d ## l ## cycles n d l s"

definition login_observed ::
  "((ApiErrorResponse option \<times> error option) \<times> world) option
    \<Rightarrow> ((ApiErrorResponse option \<times> error option) \<times> string \<times> effect list) option" where
  "login_observed r = map_option (\<lambda>(x, c). (x, apikey c, map label (trace c))) r"

text \<open>
  For the paginator. \<open>rejects\<close> is a reply with a failure status that is neither 401 nor
  retried; \<open>items\<close> is the data a reply carries; a page for total count \<open>T\<close> succeeds and
  does not change the total count, and a first page also names it and has an item.
  \<open>has_total_count\<close> says that the metadata hold a number under \<open>total_count\<close>;
  \<open>no_window\<close> that the options parse to limit 0 and offset 0. \<open>needed T off ls\<close> says
  that each page of the lengths \<open>ls\<close>, fetched at the offsets \<open>offsets_from off ls\<close>, starts
  below \<open>T\<close>. \<open>auth_headers\<close> and \<open>next_options\<close> are the options as \<open>doWithAuth\<close> and the
  paginator set them; \<open>numbered_page i j T\<close> is a page with the items \<open>i\<close> to \<open>j - 1\<close>.
\<close>

definition rejects :: "reply \<Rightarrow> bool" where
  "rejects r = (failure r = None \<and> \<not> Ok (response r) \<and>
     StatusCode (response r) \<noteq> PermissionDenied \<and> StatusCode (response r) \<noteq> Retry503 \<and>
     StatusCode (response r) \<noteq> ConnectionError)"

definition items :: "reply \<Rightarrow> json list" where
  "items r = orElse (data_b (body (response r))) []"

definition is_page :: "int \<Rightarrow> reply \<Rightarrow> bool" where
  "is_page T r =
     (succeeds r \<and>
      (case metadata_b (body (response r)) of
         None \<Rightarrow> True
       | Some m \<Rightarrow> m ''total_count'' = None \<or> m ''total_count'' = Some (JNumber T)))"

definition is_first_page :: "int \<Rightarrow> reply \<Rightarrow> bool" where
  "is_first_page T r =
     (succeeds r \<and> items r \<noteq> [] \<and>
      (case metadata_b (body (response r)) of
         None \<Rightarrow> False
       | Some m \<Rightarrow> m ''total_count'' = Some (JNumber T)))"

definition has_total_count :: "(string \<rightharpoonup> json) \<Rightarrow> bool" where
  "has_total_count m = (case m ''total_count'' of Some (JNumber t) \<Rightarrow> True | _ \<Rightarrow> False)"

definition no_window :: "RequestOptions \<Rightarrow> bool" where
  "no_window ro =
     (case ListParamsFromMap (orElse (Params ro) Map.empty) of
        Inl e \<Rightarrow> False
      | Inr lp \<Rightarrow> Limit lp = 0 \<and> Offset lp = 0)"

definition list_observed ::
  "list_result option
    \<Rightarrow> ((panic + json list \<times> ApiErrorResponse option \<times> error option) \<times> effect list) option" where
  "list_observed r =
     map_option (\<lambda>(x, ro, c). (map_sum id (\<lambda>(rs, a, e). (Data rs, a, e)) x, map label (trace c))) r"

definition numbered_page :: "nat \<Rightarrow> nat \<Rightarrow> int \<Rightarrow> reply" where
  "numbered_page i j T =
     page_reply (map (\<lambda>k. JNumber (int k)) [i..<j]) [''total_count'' \<mapsto> JNumber T]"

fun needed :: "int \<Rightarrow> int \<Rightarrow> nat list \<Rightarrow> bool" where
  "needed T off [] = True"
| "needed T off (l # ls) = (off < T \<and> needed T (off + int l) ls)"

fun offsets_from :: "int \<Rightarrow> nat list \<Rightarrow> int list" where
  "offsets_from off [] = []"
| "offsets_from off (l # ls) = off # offsets_from (off + int l) ls"

fun offset_of :: "event \<Rightarrow> string" where
  "offset_of (Sent m u ro) = at (orElse (Params ro) Map.empty) ''offset''"
| "offset_of (Slept d) = []"

definition auth_headers :: "world \<Rightarrow> RequestOptions \<Rightarrow> RequestOptions" where
  "auth_headers c ro =
     set_header ''Datera-Driver'' DateraDriver
       (ro\<lparr>Headers := Some [''tenant'' \<mapsto> tenant c, ''Auth-Token'' \<mapsto> apikey c]\<rparr>)"

definition next_options :: "int \<Rightarrow> RequestOptions \<Rightarrow> RequestOptions" where
  "next_options off ro =
     (case Params ro of
        None \<Rightarrow> ro\<lparr>Params := Some (ToMap \<lparr>Filter = [], Limit = 0, Sort = [], Offset = off\<rparr>)\<rparr>
      | Some m \<Rightarrow> ro\<lparr>Params := Some (m(''offset'' \<mapsto> FormatInt off))\<rparr>)"

definition FromMap_ToMap :: "(string \<rightharpoonup> string) \<Rightarrow> panic + (string \<rightharpoonup> string)" where
  "FromMap_ToMap m = (case ListParamsFromMap m of Inl e \<Rightarrow> Inl e | Inr lp \<Rightarrow> Inr (ToMap lp))"

definition canonical :: "string option \<Rightarrow> bool" where
  "canonical v =
     (case v of
        None \<Rightarrow> True
      | Some s \<Rightarrow> (case ParseInt s of Inl e \<Rightarrow> False | Inr i \<Rightarrow> i \<noteq> 0 \<and> FormatInt i = s))"

section \<open>Properties of the error classifier\<close>

lemmas status_defs = InvalidRequest_def PermissionDenied_def Retry503_def ConnectionError_def
  RetryRequestAfterLogin_def

text \<open>
  Claim C5. The classifier \<open>translateErrors\<close>, on a transport error and a response: a
  transport error whose message says that the connection was refused gives
  \<open>ConnectionError\<close> and no API error; any other transport error comes back as it is; a
  response without success status gives the API error read from the body, its \<open>Http\<close>
  field set to the status code of the response when the body left it 0, with
  \<open>InvalidRequest\<close> for 400, \<open>PermissionDenied\<close> for 401, \<open>Retry503\<close> for 503 and no error
  for any other status code of an HTTP response (three digits); a response with success
  status gives \<open>(nil, nil)\<close>.
\<close>

theorem translateErrors_classifies:
  "(err = Some e \<and> Contains (Error e) ''connect: connection refused'' \<longrightarrow>
      translateErrors resp err = (None, Some (StatusError ConnectionError)))
   \<and> (err = Some e \<and> \<not> Contains (Error e) ''connect: connection refused'' \<longrightarrow>
      translateErrors resp err = (None, Some e))
   \<and> (err = None \<and> \<not> Ok resp \<and> 0 \<le> StatusCode resp \<and> StatusCode resp < 1000 \<longrightarrow>
      translateErrors resp err =
        (Some ((errorJSON resp)\<lparr>Http := (if Http (errorJSON resp) = 0 then StatusCode resp
                                          else Http (errorJSON resp))\<rparr>),
         if StatusCode resp = 400 then Some (StatusError InvalidRequest)
         else if StatusCode resp = 401 then Some (StatusError PermissionDenied)
         else if StatusCode resp = 503 then Some (StatusError Retry503)
         else None))
   \<and> (err = None \<and> Ok resp \<longrightarrow> translateErrors resp err = (None, None))"
  by (simp add: translateErrors_def badStatus_def status_defs)

theorem translateErrors_classifies_witness:
  "translateErrors (response (failed_reply ''dial tcp 10.0.0.1:7717: connect: connection refused''))
      (Some (TransportError ''dial tcp 10.0.0.1:7717: connect: connection refused''))
     = (None, Some (StatusError ConnectionError))
   \<and> translateErrors (response (failed_reply ''context deadline exceeded''))
      (Some (TransportError ''context deadline exceeded''))
     = (None, Some (TransportError ''context deadline exceeded''))
   \<and> translateErrors (response (status_reply 503)) None
     = (Some (new_error\<lparr>Http := 503\<rparr>), Some (StatusError Retry503))
   \<and> translateErrors (response (status_reply 404)) None = (Some (new_error\<lparr>Http := 404\<rparr>), None)
   \<and> translateErrors (response (ok_reply no_body)) None = (None, None)"
  using
    translateErrors_classifies [of "Some (TransportError ''dial tcp 10.0.0.1:7717: connect: connection refused'')"
      "TransportError ''dial tcp 10.0.0.1:7717: connect: connection refused''"
      "response (failed_reply ''dial tcp 10.0.0.1:7717: connect: connection refused'')"]
    translateErrors_classifies [of "Some (TransportError ''context deadline exceeded'')"
      "TransportError ''context deadline exceeded''"
      "response (failed_reply ''context deadline exceeded'')"]
    translateErrors_classifies [of None ErrRetryTimeout "response (status_reply 503)"]
    translateErrors_classifies [of None ErrRetryTimeout "response (status_reply 404)"]
    translateErrors_classifies [of None ErrRetryTimeout "response (ok_reply no_body)"]
  by (simp add: status_reply_def ok_reply_def failed_reply_def new_error_def status_defs)

section \<open>List parameters and the query-parameter map\<close>

lemma byte_digit_char: "d < 10 \<Longrightarrow> byte (char_of (48 + d)) = 48 + d"
  by (simp add: byte_def)

lemma digit_of_digit_char: "d < 10 \<Longrightarrow> digit_of (char_of (48 + d)) = Some d"
  by (simp add: digit_of_def byte_digit_char)

lemma byte_underscore: "byte (CHR ''_'') = 95" "byte (CHR ''0'') = 48" "byte (CHR ''+'') = 43" "byte (CHR ''-'') = 45"
  by (simp_all add: byte_def)

lemma digit_char_neq:
  assumes "(d::nat) < 10"
  shows "char_of (48 + d) \<noteq> CHR ''_''" "char_of (48 + d) \<noteq> CHR ''+''" "char_of (48 + d) \<noteq> CHR ''-''"
    "0 < d \<Longrightarrow> char_of (48 + d) \<noteq> CHR ''0''"
  using assms byte_digit_char [OF assms] byte_underscore by auto

lemma ParseUint_loop_append:
  "ParseUint_loop b (xs @ ys) a =
     (case ParseUint_loop b xs a of Inl e \<Rightarrow> Inl e | Inr m \<Rightarrow> ParseUint_loop b ys m)"
  by (induction xs arbitrary: a) (simp_all add: Let_def split: option.splits)

lemma ParseUint_loop_digit:
  assumes "d < 10" "m * 10 + d < 2 ^ 64"
  shows "ParseUint_loop 10 [char_of (48 + d)] m = Inr (m * 10 + d)"
proof -
  have "m \<le> maxUint64 div 10" using assms by (simp add: maxUint64_def)
  then show ?thesis
    using assms by (simp add: digit_of_digit_char digit_char_neq Let_def maxUint64_def)
qed

lemma ParseUint_loop_digits10: "n < 2 ^ 64 \<Longrightarrow> ParseUint_loop 10 (digits10 n) 0 = Inr n"
proof (induction n rule: digits10.induct)
  case (1 n)
  show ?case
  proof (cases "n < 10")
    case True
    then show ?thesis
      using ParseUint_loop_digit [of n 0] "1.prems" by (simp add: digits10.simps [of n])
  next
    case False
    have "n div 10 < 2 ^ 64" using "1.prems" by simp
    then have ih: "ParseUint_loop 10 (digits10 (n div 10)) 0 = Inr (n div 10)"
      using "1.IH" False by simp
    have "ParseUint_loop 10 [char_of (48 + n mod 10)] (n div 10) = Inr (n div 10 * 10 + n mod 10)"
      using "1.prems" by (intro ParseUint_loop_digit) simp_all
    then show ?thesis
      using False ih by (simp add: digits10.simps [of n] ParseUint_loop_append)
  qed
qed

lemma digits10_not_Nil: "digits10 n \<noteq> []"
  by (subst digits10.simps) simp

lemma hd_digits10: "0 < n \<Longrightarrow> \<exists>d::nat. 0 < d \<and> d < 10 \<and> hd (digits10 n) = char_of (48 + d)"
proof (induction n rule: digits10.induct)
  case (1 n)
  show ?case
  proof (cases "n < 10")
    case True
    then have "hd (digits10 n) = char_of (48 + n)" by (simp add: digits10.simps [of n])
    then show ?thesis using True "1.prems" by blast
  next
    case False
    then have "0 < n div 10" by simp
    then show ?thesis
      using "1.IH" False by (simp add: digits10.simps [of n] digits10_not_Nil)
  qed
qed

lemma set_digits10: "c \<in> set (digits10 n) \<Longrightarrow> \<exists>d::nat. d < 10 \<and> c = char_of (48 + d)"
proof (induction n rule: digits10.induct)
  case (1 n)
  show ?case
  proof (cases "n < 10")
    case True
    then have "c = char_of (48 + n)" using "1.prems" by (simp add: digits10.simps [of n])
    then show ?thesis using True by blast
  next
    case False
    then have "c \<in> set (digits10 (n div 10)) \<or> c = char_of (48 + n mod 10)"
      using "1.prems" by (auto simp add: digits10.simps [of n])
    then show ?thesis
    proof
      assume "c \<in> set (digits10 (n div 10))"
      then show ?thesis using "1.IH" False by simp
    next
      assume c: "c = char_of (48 + n mod 10)"
      have "n mod 10 < 10" by simp
      then show ?thesis using c by blast
    qed
  qed
qed

lemma no_underscore_digits10: "CHR ''_'' \<notin> set (digits10 n)"
proof
  assume "CHR ''_'' \<in> set (digits10 n)"
  then obtain d :: nat where "d < 10" "CHR ''_'' = char_of (48 + d)"
    using set_digits10 by blast
  then show False using digit_char_neq(1) [of d] by simp
qed

lemma ParseUint_digits10:
  assumes "0 < n" "n < 2 ^ 64"
  shows "ParseUint (digits10 n) = Inr n"
proof -
  obtain d :: nat where d: "0 < d" "d < 10" "hd (digits10 n) = char_of (48 + d)"
    using hd_digits10 [OF assms(1)] by blast
  then have "hd (digits10 n) \<noteq> CHR ''0''" using digit_char_neq(4) by simp
  then have "base_prefix (digits10 n) = (10, digits10 n)" by (simp add: base_prefix_def)
  then show ?thesis
    using assms by (simp add: ParseUint_def digits10_not_Nil ParseUint_loop_digits10
        no_underscore_digits10)
qed

lemma hd_digits10_sign:
  assumes "0 < n"
  shows "hd (digits10 n) \<noteq> CHR ''+''" "hd (digits10 n) \<noteq> CHR ''-''"
proof -
  obtain d :: nat where d: "d < 10" "hd (digits10 n) = char_of (48 + d)"
    using hd_digits10 [OF assms] by blast
  show "hd (digits10 n) \<noteq> CHR ''+''" using d digit_char_neq(2) [of d] by simp
  show "hd (digits10 n) \<noteq> CHR ''-''" using d digit_char_neq(3) [of d] by simp
qed

lemma ParseInt_FormatInt:
  assumes "is_int i" "i \<noteq> 0"
  shows "ParseInt (FormatInt i) = Inr i"
proof (cases "i < 0")
  case True
  then have n: "0 < nat (- i)" "nat (- i) \<le> 2 ^ 63" using assms by (simp_all add: is_int_def)
  then have "nat (- i) < 2 ^ 64" by simp
  then have "ParseUint (digits10 (nat (- i))) = Inr (nat (- i))"
    using n(1) by (rule ParseUint_digits10 [rotated])
  then show ?thesis using True n by (simp add: ParseInt_def FormatInt_def)
next
  case False
  then have n: "0 < nat i" "nat i < 2 ^ 63" using assms by (simp_all add: is_int_def)
  then have "nat i < 2 ^ 64" by simp
  then have "ParseUint (digits10 (nat i)) = Inr (nat i)"
    using n(1) by (rule ParseUint_digits10 [rotated])
  then show ?thesis
    using False n hd_digits10_sign [OF n(1)]
    by (simp add: ParseInt_def FormatInt_def digits10_not_Nil)
qed

lemma FormatInt_not_Nil: "FormatInt i \<noteq> []"
  by (simp add: FormatInt_def digits10_not_Nil)


lemma ToMap_apply:
  "ToMap p k =
     (if k = ''offset'' \<and> Offset p \<noteq> 0 then Some (FormatInt (Offset p))
      else if k = ''sort'' \<and> Sort p \<noteq> [] then Some (Sort p)
      else if k = ''limit'' \<and> Limit p \<noteq> 0 then Some (FormatInt (Limit p))
      else if k = ''filter'' \<and> Filter p \<noteq> [] then Some (Filter p)
      else None)"
  by (simp add: ToMap_def Let_def)

lemma at_ToMap:
  "at (ToMap p) ''filter'' = Filter p"
  "at (ToMap p) ''sort'' = Sort p"
  "at (ToMap p) ''limit'' = (if Limit p = 0 then [] else FormatInt (Limit p))"
  "at (ToMap p) ''offset'' = (if Offset p = 0 then [] else FormatInt (Offset p))"
  by (simp_all add: at_def ToMap_apply)

lemma ListParamsFromMap_ToMap:
  assumes "is_int (Limit p)" "is_int (Offset p)"
  shows "ListParamsFromMap (ToMap p) = Inr p"
  using assms by (simp add: ListParamsFromMap_def at_ToMap ParseInt_FormatInt FormatInt_not_Nil)

lemma canonical_parse:
  assumes "canonical (m k)"
  shows "\<exists>i. (if at m k \<noteq> [] then ParseInt (at m k) else Inr 0) = Inr i \<and>
             m k = (if i = 0 then None else Some (FormatInt i))"
proof (cases "m k")
  case None
  then show ?thesis by (simp add: at_def)
next
  case (Some v)
  then obtain i where i: "ParseInt v = Inr i" "i \<noteq> 0" "FormatInt i = v"
    using assms by (auto simp add: canonical_def split: sum.splits)
  then have "ParseInt (at m k) = Inr i" "at m k \<noteq> []"
    using Some FormatInt_not_Nil [of i] by (simp_all add: at_def)
  then show ?thesis using Some i by auto
qed

lemma at_nonempty:
  assumes "[] \<notin> ran m"
  shows "m k = (if at m k = [] then None else Some (at m k))"
proof (cases "m k")
  case None
  then show ?thesis by (simp add: at_def)
next
  case (Some v)
  then have "v \<in> ran m" by (auto simp add: ran_def)
  then have "v \<noteq> []" using assms by auto
  then show ?thesis using Some by (simp add: at_def)
qed

lemma ToMap_ListParamsFromMap:
  assumes keys: "dom m \<subseteq> {''filter'', ''sort'', ''limit'', ''offset''}"
    and nonempty: "[] \<notin> ran m"
    and limit: "canonical (m ''limit'')"
    and offset: "canonical (m ''offset'')"
  shows "\<exists>lp. ListParamsFromMap m = Inr lp \<and> ToMap lp = m"
proof -
  obtain l where l: "(if at m ''limit'' \<noteq> [] then ParseInt (at m ''limit'') else Inr 0) = Inr l"
      "m ''limit'' = (if l = 0 then None else Some (FormatInt l))"
    using canonical_parse [of m "''limit''"] limit by blast
  obtain o1 where o1: "(if at m ''offset'' \<noteq> [] then ParseInt (at m ''offset'') else Inr 0) = Inr o1"
      "m ''offset'' = (if o1 = 0 then None else Some (FormatInt o1))"
    using canonical_parse [of m "''offset''"] offset by blast
  let ?lp = "\<lparr>Filter = at m ''filter'', Limit = l, Sort = at m ''sort'', Offset = o1\<rparr>"
  have parsed: "ListParamsFromMap m = Inr ?lp"
    using l(1) o1(1) by (simp add: ListParamsFromMap_def)
  have f: "m ''filter'' = (if at m ''filter'' = [] then None else Some (at m ''filter''))"
    by (rule at_nonempty [OF nonempty])
  have s: "m ''sort'' = (if at m ''sort'' = [] then None else Some (at m ''sort''))"
    by (rule at_nonempty [OF nonempty])
  have "ToMap ?lp k = m k" for k
  proof -
    consider "k = ''filter''" | "k = ''sort''" | "k = ''limit''" | "k = ''offset''"
      | "k \<notin> {''filter'', ''sort'', ''limit'', ''offset''}" by blast
    then show ?thesis
    proof cases
      case 1
      then show ?thesis using f by (simp add: ToMap_apply)
    next
      case 2
      then show ?thesis using s by (simp add: ToMap_apply)
    next
      case 3
      then show ?thesis using l(2) by (simp add: ToMap_apply)
    next
      case 4
      then show ?thesis using o1(2) by (simp add: ToMap_apply)
    next
      case 5
      then have "m k = None" using keys by blast
      then show ?thesis using 5 by (simp add: ToMap_apply)
    qed
  qed
  then have "ToMap ?lp = m" by (rule ext)
  then show ?thesis using parsed by blast
qed


text \<open>
  Claim C9, as amended. For every \<open>ListParams\<close> value \<open>p\<close> whose numbers are Go \<open>int\<close>s,
  \<open>ToMap p\<close> holds exactly the non-empty and non-zero fields of \<open>p\<close> and
  \<open>ListParamsFromMap (ToMap p) = p\<close>. Conversely, for every map \<open>m\<close> with no key besides
  \<open>filter\<close>, \<open>sort\<close>, \<open>limit\<close> and \<open>offset\<close>, no empty value, and \<open>limit\<close> and \<open>offset\<close> in
  canonical decimal form, \<open>ToMap (ListParamsFromMap m) = m\<close>.
\<close>

theorem ListParams_roundtrip:
  "(is_int (Limit p) \<and> is_int (Offset p) \<longrightarrow>
      ListParamsFromMap (ToMap p) = Inr p \<and>
      ToMap p k =
        (if k = ''offset'' \<and> Offset p \<noteq> 0 then Some (FormatInt (Offset p))
         else if k = ''sort'' \<and> Sort p \<noteq> [] then Some (Sort p)
         else if k = ''limit'' \<and> Limit p \<noteq> 0 then Some (FormatInt (Limit p))
         else if k = ''filter'' \<and> Filter p \<noteq> [] then Some (Filter p)
         else None))
   \<and> (dom m \<subseteq> {''filter'', ''sort'', ''limit'', ''offset''} \<and> [] \<notin> ran m \<and>
       canonical (m ''limit'') \<and> canonical (m ''offset'') \<longrightarrow>
      FromMap_ToMap m = Inr m)"
proof (intro conjI impI)
  assume "is_int (Limit p) \<and> is_int (Offset p)"
  then show "ListParamsFromMap (ToMap p) = Inr p" by (simp add: ListParamsFromMap_ToMap)
next
  show "ToMap p k =
        (if k = ''offset'' \<and> Offset p \<noteq> 0 then Some (FormatInt (Offset p))
         else if k = ''sort'' \<and> Sort p \<noteq> [] then Some (Sort p)
         else if k = ''limit'' \<and> Limit p \<noteq> 0 then Some (FormatInt (Limit p))
         else if k = ''filter'' \<and> Filter p \<noteq> [] then Some (Filter p)
         else None)"
    by (rule ToMap_apply)
next
  assume "dom m \<subseteq> {''filter'', ''sort'', ''limit'', ''offset''} \<and> [] \<notin> ran m \<and>
       canonical (m ''limit'') \<and> canonical (m ''offset'')"
  then obtain lp where "ListParamsFromMap m = Inr lp" "ToMap lp = m"
    using ToMap_ListParamsFromMap [of m] by blast
  then show "FromMap_ToMap m = Inr m" by (simp add: FromMap_ToMap_def)
qed

lemmas strconv_defs = ParseInt_def ParseUint_def base_prefix_def digit_of_def byte_def lower_def
  maxUint64_def underscoreOK_def FormatInt_def char_of_def bit_0

theorem ListParams_roundtrip_witness:
  "ListParamsFromMap (ToMap \<lparr>Filter = ''name==vol1'', Limit = 25, Sort = [], Offset = - 3\<rparr>)
     = Inr \<lparr>Filter = ''name==vol1'', Limit = 25, Sort = [], Offset = - 3\<rparr>
   \<and> ToMap \<lparr>Filter = ''name==vol1'', Limit = 25, Sort = [], Offset = - 3\<rparr> ''sort'' = None
   \<and> FromMap_ToMap [''limit'' \<mapsto> ''25'', ''sort'' \<mapsto> ''name''] = Inr [''limit'' \<mapsto> ''25'', ''sort'' \<mapsto> ''name'']"
proof -
  have a: "is_int 25 \<and> is_int (- 3)" by (simp add: is_int_def)
  have b: "dom [''limit'' \<mapsto> ''25'', ''sort'' \<mapsto> ''name''] \<subseteq> {''filter'', ''sort'', ''limit'', ''offset''}"
    by simp
  have c: "[] \<notin> ran [''limit'' \<mapsto> ''25'', ''sort'' \<mapsto> ''name'']"
    by (auto simp add: ran_def)
  have d: "canonical ([''limit'' \<mapsto> ''25'', ''sort'' \<mapsto> ''name''] ''limit'')"
    by (simp add: canonical_def strconv_defs digits10.simps)
  have e: "canonical ([''limit'' \<mapsto> ''25'', ''sort'' \<mapsto> ''name''] ''offset'')"
    by (simp add: canonical_def)
  show ?thesis
    using a b c d e
      ListParams_roundtrip [of "\<lparr>Filter = ''name==vol1'', Limit = 25, Sort = [], Offset = - 3\<rparr>"
        "''sort''" "[''limit'' \<mapsto> ''25'', ''sort'' \<mapsto> ''name'']"]
    by simp
qed

text \<open>
  Claim C9 as stated fails: \<open>010\<close> is a numeric, non-zero limit, which base 0 reads as
  octal 8 and \<open>ToMap\<close> writes back as \<open>8\<close>.
\<close>

theorem FromMap_ToMap_octal_counterexample:
  "FromMap_ToMap [''limit'' \<mapsto> ''010''] = Inr [''limit'' \<mapsto> ''8'']
   \<and> FromMap_ToMap [''limit'' \<mapsto> ''010''] \<noteq> Inr [''limit'' \<mapsto> ''010'']"
proof -
  have "ParseInt ''010'' = Inr 8" by (simp add: strconv_defs)
  then have a: "FromMap_ToMap [''limit'' \<mapsto> ''010''] = Inr [''limit'' \<mapsto> ''8'']"
    by (simp add: FromMap_ToMap_def ListParamsFromMap_def at_def ToMap_def strconv_defs
        digits10.simps)
  have "[''limit'' \<mapsto> ''8''] ''limit'' \<noteq> [''limit'' \<mapsto> ''010''] ''limit''" by simp
  then have "[''limit'' \<mapsto> ''8''] \<noteq> [''limit'' \<mapsto> ''010'']" by metis
  then show ?thesis using a by simp
qed

section \<open>The calls, one step at a time\<close>

text \<open>
  No call returns an API error together with an error. The equations of \<open>do\<close>, \<open>retry\<close>
  and \<open>Login\<close> follow, as the source has them.
\<close>

lemma run_never_both:
  "run n k c = Some ((a, e), ro', rs', c') \<Longrightarrow> a = None \<or> e = None"
proof (induction n arbitrary: k c a e ro' rs' c')
  case 0
  then show ?case by simp
next
  case (Suc n)
  show ?case
  proof (cases k)
    case (Do meth u ro rs rtry sensitive allowLogin)
    then show ?thesis
      using Suc.prems Suc.IH
      by (auto simp add: Let_def split: prod.splits option.splits if_splits)
  next
    case (Retry meth u ro rs sensitive allowLogin)
    then show ?thesis using Suc.prems Suc.IH by auto
  next
    case (RetryLoop t1 backoff meth u ro rs sensitive allowLogin)
    then show ?thesis
      using Suc.prems Suc.IH
      by (auto split: prod.splits option.splits if_splits)
  next
    case LoginCall
    then show ?thesis
      using Suc.prems Suc.IH
      by (auto split: prod.splits option.splits if_splits)
  qed
qed

lemma do_req_Suc:
  "do_req (Suc n) method url ro rs rtry sensitive allowLogin c =
     (let ro1 = set_header ''Datera-Driver'' DateraDriver ro;
          (r, c1) = DoRegularRequest method url ro1 c;
          (eresp, err) = translateErrors (response r) (map_option TransportError (failure r))
      in
        if err = badStatus PermissionDenied then
          (if allowLogin \<and> hasLoggedIn c1 then
             (case Login n (Logout c1) of
                None \<Rightarrow> None
              | Some ((apiresp, err2), c2) \<Rightarrow>
                  if apiresp \<noteq> None \<or> err2 \<noteq> None then Some ((apiresp, err2), ro1, rs, c2)
                  else do_req n method url (set_header ''Auth-Token'' (apikey c2) ro1) rs
                         False sensitive allowLogin c2)
           else Some ((eresp, None), ro1, rs, c1))
        else if rtry \<and> (err = badStatus Retry503 \<or> err = badStatus ConnectionError) then
          retry n method url ro1 rs sensitive allowLogin c1
        else if eresp \<noteq> None then Some ((eresp, None), ro1, rs, c1)
        else if err \<noteq> None then Some ((None, err), ro1, rs, c1)
        else
          (case JSON (body (response r)) rs of
             (Some e, rs1) \<Rightarrow> Some ((None, Some e), ro1, rs1, c1)
           | (None, rs1) \<Rightarrow> Some ((None, None), ro1, rs1, c1)))"
proof -
  obtain r c1 where rc:
    "DoRegularRequest method url (set_header ''Datera-Driver'' DateraDriver ro) c = (r, c1)"
    by fastforce
  obtain eresp err where te:
    "translateErrors (response r) (map_option TransportError (failure r)) = (eresp, err)"
    by fastforce
  show ?thesis
    unfolding do_req_def retry_def Login_def
    by (cases "run n LoginCall (Logout c1)") (auto simp add: Let_def rc te)
qed

lemma retry_Suc:
  "retry (Suc n) method url ro rs sensitive allowLogin c =
     retry_loop n (now c) 1 method url ro rs sensitive allowLogin c"
  by (simp add: retry_def retry_loop_def)

lemma retry_loop_Suc:
  "retry_loop (Suc n) t1 backoff method url ro rs sensitive allowLogin c =
     (if now c - t1 < RetryTimeout then
        (case do_req n method url ro rs False sensitive allowLogin c of
           None \<Rightarrow> None
         | Some ((apiresp, err), ro1, rs1, c1) \<Rightarrow>
             if apiresp = None \<and> err = None then Some ((None, None), ro1, rs1, c1)
             else if (case apiresp of None \<Rightarrow> False | Some a \<Rightarrow> Http a \<noteq> 503) then
               Some ((apiresp, None), ro1, rs1, c1)
             else if (case err of None \<Rightarrow> False
                      | Some e \<Rightarrow> \<not> Contains (Error e) ''connect: connection refused'') then
               Some ((None, err), ro1, rs1, c1)
             else
               retry_loop n t1 (backoff + 1) method url ro1 rs1 sensitive allowLogin
                 (Sleep (backoff * backoff) c1))
      else Some ((None, Some ErrRetryTimeout), ro, rs, c))"
  unfolding do_req_def retry_loop_def by simp

lemma Login_Suc:
  "Login (Suc n) c =
     (if apikey c \<noteq> [] then Some ((None, None), c)
      else
        (case do_req n ''PUT'' ''login'' (login_options c) (LoginHolder new_login)
                True True False c of
           None \<Rightarrow> None
         | Some ((apiresp, err), ro1, login, c1) \<Rightarrow>
             if (case apiresp of None \<Rightarrow> False | Some a \<Rightarrow> Http a = PermissionDenied) \<or>
                (err \<noteq> None \<and> err = badStatus PermissionDenied)
             then Some ((apiresp, err), c1\<lparr>apikey := []\<rparr>)
             else Some ((apiresp, err), c1\<lparr>apikey := login_key login\<rparr>)))"
  unfolding do_req_def Login_def by (simp split: prod.splits option.splits)

lemma do_req_never_both:
  "do_req n method url ro rs rtry sensitive allowLogin c = Some ((a, e), ro', rs', c')
    \<Longrightarrow> a = None \<or> e = None"
  unfolding do_req_def by (rule run_never_both)

lemmas run_defs = do_req_def retry_def retry_loop_def Login_def doWithAuth_def DoRegularRequest_def
  translateErrors_def badStatus_def status_defs RetryTimeout_def set_header_def hasLoggedIn_def
  Logout_def Sleep_def status_reply_def ok_reply_def failed_reply_def key_reply_def
  page_reply_def connection_def new_error_def no_body_def orElse_def login_options_def
  login_key_def new_login_def no_options_def Let_def observed_def


section \<open>The retry loop\<close>

text \<open>
  Claim C7. In any iteration of the retry loop (the timeout not yet reached), an attempt
  that yields an API error whose HTTP status is not 503, or an error whose message does
  not say that the connection was refused, makes the loop return that outcome at once:
  the connection is left as the attempt left it, with no sleep and no further request.
\<close>

theorem retry_loop_returns_terminal:
  assumes "now c - t1 < RetryTimeout"
    and "do_req n method url ro rs False sensitive allowLogin c = Some ((apiresp, err), ro1, rs1, c1)"
    and "(\<exists>a. apiresp = Some a \<and> Http a \<noteq> 503) \<or>
         (\<exists>e. err = Some e \<and> \<not> Contains (Error e) ''connect: connection refused'')"
  shows "retry_loop (Suc n) t1 backoff method url ro rs sensitive allowLogin c =
           Some ((apiresp, err), ro1, rs1, c1)"
proof -
  have "apiresp = None \<or> err = None" using assms(2) by (rule do_req_never_both)
  then show ?thesis
    using assms by (auto simp add: retry_loop_Suc)
qed

theorem retry_loop_returns_terminal_witness:
  "observed (retry_loop 2 0 1 ''GET'' ''x'' no_options (ListHolder new_list) False True
       (connection ''k0'' (sconst (status_reply 400))))
     = Some ((Some (new_error\<lparr>Http := 400\<rparr>), None), [Request ''GET'' ''x''])"
proof -
  let ?c = "connection ''k0'' (sconst (status_reply 400))"
  have a: "now ?c - 0 < RetryTimeout" by (simp add: connection_def RetryTimeout_def)
  have b: "do_req 1 ''GET'' ''x'' no_options (ListHolder new_list) False False True ?c
      = Some ((Some (new_error\<lparr>Http := 400\<rparr>), None),
              set_header ''Datera-Driver'' DateraDriver no_options, ListHolder new_list,
              ?c\<lparr>trace := [Sent ''GET'' ''x'' (set_header ''Datera-Driver'' DateraDriver no_options)]\<rparr>)"
    by (simp add: run_defs eval_nat_numeral)
  have c: "(\<exists>a. Some (new_error\<lparr>Http := 400\<rparr>) = Some a \<and> Http a \<noteq> 503) \<or>
         (\<exists>e. None = Some e \<and> \<not> Contains (Error e) ''connect: connection refused'')"
    by (simp add: new_error_def)
  show ?thesis
    using retry_loop_returns_terminal [OF a b c, where backoff = 1]
    by (simp add: observed_def eval_nat_numeral)
qed


text \<open>
  Claim C2 fails on the code. A server that answers 503 to every request exhausts the
  budget of 300 seconds after ten attempts; the last attempt observed an API error with
  status 503, and \<open>retry\<close> returns no API error with \<open>ErrRetryTimeout\<close>.
\<close>

theorem retry_timeout_returns_nil_api_error:
  "observed (do_req 1 ''GET'' ''x'' no_options (ListHolder new_list) False False True
       (connection ''k0'' (sconst (status_reply 503))))
     = Some ((Some (new_error\<lparr>Http := 503\<rparr>), None), [Request ''GET'' ''x''])
   \<and> observed (retry 12 ''GET'' ''x'' no_options (ListHolder new_list) False True
       (connection ''k0'' (sconst (status_reply 503))))
     = Some ((None, Some ErrRetryTimeout),
         [Request ''GET'' ''x'', Pause 1, Request ''GET'' ''x'', Pause 4, Request ''GET'' ''x'', Pause 9,
          Request ''GET'' ''x'', Pause 16, Request ''GET'' ''x'', Pause 25, Request ''GET'' ''x'', Pause 36,
          Request ''GET'' ''x'', Pause 49, Request ''GET'' ''x'', Pause 64, Request ''GET'' ''x'', Pause 81,
          Request ''GET'' ''x'', Pause 100])"
  by (simp add: run_defs eval_nat_numeral)

text \<open>
  Claim C8 fails on the code for a refused connection. The attempt returns the entry
  \<open>ConnectionError\<close> of \<open>badStatus\<close>, whose message is not the transport's; the loop looks
  for the transport's message in it, does not find it and returns after the first
  attempt, without a sleep.
\<close>

theorem retry_connection_refused_returns_at_once:
  "Error (StatusError ConnectionError) = ''ConnectionError''
   \<and> observed (retry 3 ''GET'' ''x'' no_options (ListHolder new_list) False True
       (connection ''k0'' (sconst (failed_reply ''dial tcp 10.0.0.1:7717: connect: connection refused''))))
     = Some ((None, Some (StatusError ConnectionError)), [Request ''GET'' ''x''])"
  by (simp add: run_defs eval_nat_numeral)

section \<open>Login\<close>

lemma DoRegularRequest_fst: "fst (DoRegularRequest method url ro c) = shd (replies c)"
  by (simp add: DoRegularRequest_def)

lemma do_req_denied:
  assumes "denied (shd (replies c))" "\<not> allowLogin \<or> apikey c = []"
  shows "do_req (Suc n) method url ro rs rtry sensitive allowLogin c =
     Some ((fst (translateErrors (response (shd (replies c))) None), None),
           set_header ''Datera-Driver'' DateraDriver ro, rs,
           snd (DoRegularRequest method url (set_header ''Datera-Driver'' DateraDriver ro) c))"
  using assms
  by (auto simp add: do_req_Suc denied_def Let_def DoRegularRequest_def translateErrors_def
      badStatus_def status_defs hasLoggedIn_def)

lemma do_req_succeeds:
  assumes "succeeds (shd (replies c))"
  shows "do_req (Suc n) method url ro rs rtry sensitive allowLogin c =
     Some ((None, None),
           set_header ''Datera-Driver'' DateraDriver ro,
           snd (JSON (body (response (shd (replies c)))) rs),
           snd (DoRegularRequest method url (set_header ''Datera-Driver'' DateraDriver ro) c))"
proof -
  have "fst (JSON (body (response (shd (replies c)))) rs) = None"
    using assms by (cases rs) (simp_all add: succeeds_def)
  then show ?thesis
    using assms
    by (auto simp add: do_req_Suc succeeds_def Let_def DoRegularRequest_def translateErrors_def
      badStatus_def status_defs split: prod.splits option.splits)
qed


lemma Login_logged_in: "apikey c \<noteq> [] \<Longrightarrow> Login (Suc n) c = Some ((None, None), c)"
  by (simp add: Login_Suc)

lemma Login_denied:
  assumes "apikey c = []" "denied (shd (replies c))"
  shows "Login (Suc (Suc n)) c =
          Some ((fst (translateErrors (response (shd (replies c))) None), None),
                (snd (DoRegularRequest ''PUT'' ''login''
                        (set_header ''Datera-Driver'' DateraDriver (login_options c)) c))
                \<lparr>apikey := []\<rparr>)"
proof -
  have "\<not> Ok (response (shd (replies c)))" using assms by (simp add: denied_def)
  then obtain e where e: "fst (translateErrors (response (shd (replies c))) None) = Some e"
    by (simp add: translateErrors_def Let_def)
  show ?thesis
    using assms e by (simp add: Login_Suc [of "Suc n"] do_req_denied badStatus_def status_defs
        DoRegularRequest_def login_key_def new_login_def)
qed

lemma Login_succeeds:
  assumes "apikey c = []" "succeeds (shd (replies c))"
  shows "Login (Suc (Suc n)) c =
          Some ((None, None),
                (snd (DoRegularRequest ''PUT'' ''login''
                        (set_header ''Datera-Driver'' DateraDriver (login_options c)) c))
                \<lparr>apikey := orElse (key_b (body (response (shd (replies c))))) []\<rparr>)"
  using assms by (simp add: Login_Suc [of "Suc n"] do_req_succeeds login_key_def new_login_def)

lemma Login_denied_clears:
  assumes "apikey c = []" "Login n c = Some ((apiresp, err), c')"
    "(\<exists>a. apiresp = Some a \<and> Http a = PermissionDenied) \<or> err = Some (StatusError PermissionDenied)"
  shows "apikey c' = []"
proof -
  obtain m where n: "n = Suc m" using assms(2) by (cases n) (auto simp add: Login_def)
  show ?thesis
    using assms unfolding n
    by (auto simp add: Login_Suc badStatus_def status_defs split: option.splits prod.splits if_splits)
qed

text \<open>
  Claim C6. With a token held, \<open>Login\<close> returns success at once and leaves the
  connection as it is: no request, the token unchanged. With no token, a login request
  that is answered 401 leaves the token empty and returns the API error; one that
  succeeds stores the key of the login response as the token; one request is sent in
  either case. Whatever the replies, a login that ends in a permission-denied outcome
  leaves the token empty.
\<close>

theorem Login_postcondition:
  "(apikey c \<noteq> [] \<longrightarrow> Login (Suc n) c = Some ((None, None), c))
   \<and> (apikey c = [] \<and> denied (shd (replies c)) \<longrightarrow>
        Login (Suc (Suc n)) c =
          Some ((fst (translateErrors (response (shd (replies c))) None), None),
                (snd (DoRegularRequest ''PUT'' ''login''
                        (set_header ''Datera-Driver'' DateraDriver (login_options c)) c))
                \<lparr>apikey := []\<rparr>))
   \<and> (apikey c = [] \<and> succeeds (shd (replies c)) \<longrightarrow>
        Login (Suc (Suc n)) c =
          Some ((None, None),
                (snd (DoRegularRequest ''PUT'' ''login''
                        (set_header ''Datera-Driver'' DateraDriver (login_options c)) c))
                \<lparr>apikey := orElse (key_b (body (response (shd (replies c))))) []\<rparr>))
   \<and> (apikey c = [] \<and> Login n c = Some ((apiresp, err), c') \<and>
       ((\<exists>a. apiresp = Some a \<and> Http a = PermissionDenied) \<or>
        err = Some (StatusError PermissionDenied)) \<longrightarrow>
        apikey c' = [])"
  using Login_logged_in [of c n] Login_denied [of c n] Login_succeeds [of c n]
    Login_denied_clears [of c n apiresp err c']
  by blast

theorem Login_postcondition_witness:
  "login_observed (Login 1 (connection ''k0'' (sconst (status_reply 401))))
     = Some ((None, None), ''k0'', [])
   \<and> login_observed (Login 2 (connection [] (sconst (status_reply 401))))
     = Some ((Some (new_error\<lparr>Http := 401\<rparr>), None), [], [Request ''PUT'' ''login''])
   \<and> login_observed (Login 2 (connection [] (sconst (key_reply ''k1''))))
     = Some ((None, None), ''k1'', [Request ''PUT'' ''login''])"
proof -
  have a: "login_observed (Login 1 (connection ''k0'' (sconst (status_reply 401))))
     = Some ((None, None), ''k0'', [])"
    using Login_postcondition [of "connection ''k0'' (sconst (status_reply 401))" 0 None None
        "connection ''k0'' (sconst (status_reply 401))"]
    by (simp add: connection_def login_observed_def)
  have b: "login_observed (Login 2 (connection [] (sconst (status_reply 401))))
     = Some ((Some (new_error\<lparr>Http := 401\<rparr>), None), [], [Request ''PUT'' ''login''])"
    using Login_postcondition [of "connection [] (sconst (status_reply 401))" 0 None None
        "connection [] (sconst (status_reply 401))"]
    by (simp add: connection_def login_observed_def denied_def status_reply_def status_defs
        translateErrors_def DoRegularRequest_def new_error_def eval_nat_numeral)
  have c: "login_observed (Login 2 (connection [] (sconst (key_reply ''k1''))))
     = Some ((None, None), ''k1'', [Request ''PUT'' ''login''])"
    using Login_postcondition [of "connection [] (sconst (key_reply ''k1''))" 0 None None
        "connection [] (sconst (key_reply ''k1''))"]
    by (simp add: connection_def login_observed_def succeeds_def key_reply_def ok_reply_def
        no_body_def orElse_def DoRegularRequest_def eval_nat_numeral)
  show ?thesis using a b c by simp
qed

section \<open>Re-authentication\<close>

lemma do_req_cycles:
  assumes "denied d" "succeeds l" "key_b (body (response l)) = Some k" "k \<noteq> []" "succeeds f"
  shows "apikey c \<noteq> [] \<Longrightarrow> replies c = cycles n d l (f ## rest) \<Longrightarrow>
    \<exists>ro' rs' c'.
      do_req (Suc (Suc n) + m) method url ro rs rtry sensitive True c = Some ((None, None), ro', rs', c') \<and>
      replies c' = rest \<and>
      map label (trace c') =
        map label (trace c) @ concat (replicate n [Request method url, Request ''PUT'' ''login''])
          @ [Request method url] \<and>
      apikey c' = (if n = 0 then apikey c else k)"
proof (induction n arbitrary: c ro rtry)
  case 0
  then have "succeeds (shd (replies c))" using assms(5) by simp
  then show ?case
    using 0 by (simp add: do_req_succeeds DoRegularRequest_def)
next
  case (Suc n)
  let ?ro1 = "set_header ''Datera-Driver'' DateraDriver ro"
  let ?c1 = "snd (DoRegularRequest method url ?ro1 c)"
  let ?c2 = "(snd (DoRegularRequest ''PUT'' ''login''
                 (set_header ''Datera-Driver'' DateraDriver (login_options (Logout ?c1))) (Logout ?c1)))
             \<lparr>apikey := k\<rparr>"
  have d: "shd (replies c) = d" using Suc.prems by simp
  have te: "snd (translateErrors (response d) None) = badStatus PermissionDenied"
    using assms(1) by (simp add: denied_def translateErrors_def Let_def)
  have l: "shd (replies (Logout ?c1)) = l" "apikey (Logout ?c1) = []"
    using Suc.prems by (simp_all add: Logout_def DoRegularRequest_def)
  have login: "Login (Suc (Suc (n + m))) (Logout ?c1) = Some ((None, None), ?c2)"
    using Login_succeeds [of "Logout ?c1" "n + m"] l assms(2,3) by (simp add: orElse_def)
  have c2: "apikey ?c2 \<noteq> []" "replies ?c2 = cycles n d l (f ## rest)"
    using Suc.prems assms(4) by (simp_all add: Logout_def DoRegularRequest_def)
  obtain ro' rs' c' where replay:
    "do_req (Suc (Suc n) + m) method url (set_header ''Auth-Token'' (apikey ?c2) ?ro1) rs False
        sensitive True ?c2 = Some ((None, None), ro', rs', c')"
    "replies c' = rest"
    "map label (trace c') =
        map label (trace ?c2) @ concat (replicate n [Request method url, Request ''PUT'' ''login''])
          @ [Request method url]"
    "apikey c' = (if n = 0 then apikey ?c2 else k)"
    using Suc.IH [OF c2] by blast
  have logged: "hasLoggedIn ?c1"
    using Suc.prems by (simp add: hasLoggedIn_def DoRegularRequest_def)
  have "do_req (Suc (Suc (Suc n)) + m) method url ro rs rtry sensitive True c
          = Some ((None, None), ro', rs', c')"
    using replay(1) login logged te d assms(1)
    by (simp add: do_req_Suc [of "Suc (Suc (n + m))"] Let_def split_def DoRegularRequest_fst
        denied_def)
  moreover have "map label (trace c') =
        map label (trace c) @ concat (replicate (Suc n) [Request method url, Request ''PUT'' ''login''])
          @ [Request method url]"
    using replay(3) by (simp add: DoRegularRequest_def Logout_def)
  moreover have "apikey c' = (if Suc n = 0 then apikey c else k)"
    using replay(4) by simp
  ultimately show ?case using replay(2) by blast
qed

text \<open>
  Claim C1, as amended. A single-attempt call with re-authentication permitted that
  gets a 401 while a token is held logs out, logs in and, the login having succeeded,
  replays the call with re-authentication still permitted: when each of \<open>n\<close> attempts in
  a row is answered 401 and each login gives a token, \<open>n\<close> cycles of logout, login and
  replay are performed before the call returns, for every \<open>n\<close>. A 401 is returned to the
  caller without a cycle when re-authentication is not permitted or no token is held.
\<close>

theorem do_req_reauth_each_401:
  "(apikey c \<noteq> [] \<and> denied d \<and> succeeds l \<and> key_b (body (response l)) = Some k \<and> k \<noteq> [] \<and>
    succeeds f \<and> replies c = cycles n d l (f ## rest) \<longrightarrow>
      (\<exists>ro' rs' c'.
         do_req (Suc (Suc n) + m) method url ro rs rtry sensitive True c
           = Some ((None, None), ro', rs', c') \<and>
         replies c' = rest \<and>
         map label (trace c') =
           map label (trace c) @ concat (replicate n [Request method url, Request ''PUT'' ''login''])
             @ [Request method url] \<and>
         apikey c' = (if n = 0 then apikey c else k)))
   \<and> (denied (shd (replies c)) \<and> (\<not> allowLogin \<or> apikey c = []) \<longrightarrow>
        do_req (Suc m) method url ro rs rtry sensitive allowLogin c =
          Some ((fst (translateErrors (response (shd (replies c))) None), None),
                set_header ''Datera-Driver'' DateraDriver ro, rs,
                snd (DoRegularRequest method url (set_header ''Datera-Driver'' DateraDriver ro) c)))"
  using do_req_cycles [of d l k f c n rest m "method" "url" ro rs rtry sensitive]
    do_req_denied [of c allowLogin m "method" "url" ro rs rtry sensitive]
  by blast

theorem do_req_reauth_each_401_witness:
  "(\<exists>ro' rs' c'.
      do_req 4 ''GET'' ''x'' no_options (ListHolder new_list) False False True
        (connection ''k0'' (cycles 2 (status_reply 401) (key_reply ''k1'') (ok_reply no_body ## sconst (status_reply 400))))
        = Some ((None, None), ro', rs', c') \<and>
      replies c' = sconst (status_reply 400) \<and>
      map label (trace c') =
        [Request ''GET'' ''x'', Request ''PUT'' ''login'', Request ''GET'' ''x'', Request ''PUT'' ''login'',
         Request ''GET'' ''x''] \<and>
      apikey c' = ''k1'')
   \<and> observed (do_req 1 ''GET'' ''x'' no_options (ListHolder new_list) False False True
        (connection [] (sconst (status_reply 401))))
       = Some ((Some (new_error\<lparr>Http := 401\<rparr>), None), [Request ''GET'' ''x''])"
proof -
  have a: "apikey (connection ''k0'' (cycles 2 (status_reply 401) (key_reply ''k1'') (ok_reply no_body ## sconst (status_reply 400)))) \<noteq> [] \<and>
      denied (status_reply 401) \<and> succeeds (key_reply ''k1'') \<and>
      key_b (body (response (key_reply ''k1''))) = Some ''k1'' \<and> ''k1'' \<noteq> [] \<and>
      succeeds (ok_reply no_body) \<and>
      replies (connection ''k0'' (cycles 2 (status_reply 401) (key_reply ''k1'') (ok_reply no_body ## sconst (status_reply 400))))
        = cycles 2 (status_reply 401) (key_reply ''k1'') (ok_reply no_body ## sconst (status_reply 400))"
    by (simp add: connection_def denied_def succeeds_def status_reply_def key_reply_def
        ok_reply_def no_body_def status_defs)
  have b: "denied (shd (replies (connection [] (sconst (status_reply 401))))) \<and>
      (\<not> True \<or> apikey (connection [] (sconst (status_reply 401))) = [])"
    by (simp add: connection_def denied_def status_reply_def status_defs)
  have c: "(\<exists>ro' rs' c'.
      do_req 4 ''GET'' ''x'' no_options (ListHolder new_list) False False True
        (connection ''k0'' (cycles 2 (status_reply 401) (key_reply ''k1'') (ok_reply no_body ## sconst (status_reply 400))))
        = Some ((None, None), ro', rs', c') \<and>
      replies c' = sconst (status_reply 400) \<and>
      map label (trace c') =
        [Request ''GET'' ''x'', Request ''PUT'' ''login'', Request ''GET'' ''x'', Request ''PUT'' ''login'',
         Request ''GET'' ''x''] \<and>
      apikey c' = ''k1'')"
    using a do_req_reauth_each_401 [of
        "connection ''k0'' (cycles 2 (status_reply 401) (key_reply ''k1'') (ok_reply no_body ## sconst (status_reply 400)))"
        "status_reply 401" "key_reply ''k1''" "''k1''" "ok_reply no_body" 2 "sconst (status_reply 400)"
        0 "''GET''" "''x''" no_options "ListHolder new_list" False False True]
    by (simp add: connection_def eval_nat_numeral)
  have d: "observed (do_req 1 ''GET'' ''x'' no_options (ListHolder new_list) False False True
        (connection [] (sconst (status_reply 401))))
       = Some ((Some (new_error\<lparr>Http := 401\<rparr>), None), [Request ''GET'' ''x''])"
    using b do_req_reauth_each_401 [of
        "connection [] (sconst (status_reply 401))"
        "status_reply 401" "key_reply ''k1''" "''k1''" "ok_reply no_body" 0 "sconst (status_reply 400)"
        0 "''GET''" "''x''" no_options "ListHolder new_list" False False True]
    by (simp add: observed_def connection_def DoRegularRequest_def translateErrors_def
        status_reply_def new_error_def)
  show ?thesis using c d by blast
qed

text \<open>
  Claim C1 as stated fails: the replay keeps the permission to re-authenticate. With
  two attempts in a row answered 401, two cycles are performed and the second 401 is not
  returned to the caller.
\<close>

theorem do_req_second_401_counterexample:
  "observed (do_req 4 ''GET'' ''x'' no_options (ListHolder new_list) False False True
       (connection ''k0'' (status_reply 401 ## key_reply ''k1'' ## status_reply 401 ##
                            key_reply ''k2'' ## sconst (ok_reply no_body))))
     = Some ((None, None),
         [Request ''GET'' ''x'', Request ''PUT'' ''login'', Request ''GET'' ''x'',
          Request ''PUT'' ''login'', Request ''GET'' ''x''])"
  by (simp add: run_defs eval_nat_numeral)

section \<open>The list paginator, page by page\<close>

lemma doWithAuth_succeeds:
  assumes "apikey c \<noteq> []" "succeeds (shd (replies c))"
  shows "doWithAuth (Suc n) m u (Some ro) rs c =
     Some ((None, None), auth_headers c ro, snd (JSON (body (response (shd (replies c)))) rs),
           snd (DoRegularRequest m u (auth_headers c ro) c))"
  using assms
  by (simp add: doWithAuth_def hasLoggedIn_def orElse_def do_req_succeeds auth_headers_def)

lemma do_req_rejects:
  assumes "rejects (shd (replies c))"
  shows "do_req (Suc n) m u ro rs rtry sensitive allowLogin c =
     Some ((fst (translateErrors (response (shd (replies c))) None), None),
           set_header ''Datera-Driver'' DateraDriver ro, rs,
           snd (DoRegularRequest m u (set_header ''Datera-Driver'' DateraDriver ro) c))"
  using assms
  by (auto simp add: do_req_Suc rejects_def Let_def DoRegularRequest_def translateErrors_def
      badStatus_def status_defs)

lemma doWithAuth_rejects:
  assumes "apikey c \<noteq> []" "rejects (shd (replies c))"
  shows "doWithAuth (Suc n) m u (Some ro) rs c =
     Some ((fst (translateErrors (response (shd (replies c))) None), None), auth_headers c ro, rs,
           snd (DoRegularRequest m u (auth_headers c ro) c))"
  using assms
  by (simp add: doWithAuth_def hasLoggedIn_def orElse_def do_req_rejects auth_headers_def)

lemma rejects_error: "rejects r \<Longrightarrow> fst (translateErrors (response r) None) \<noteq> None"
  by (simp add: rejects_def translateErrors_def Let_def)

lemma JSON_list:
  "snd (JSON b (ListHolder r)) =
     ListHolder \<lparr>Data = orElse (data_b b) (Data r),
                  Version_o = orElse (version_b b) (Version_o r),
                  Metadata = (case metadata_b b of None \<Rightarrow> Metadata r | Some m \<Rightarrow> Metadata r ++ m),
                  ReqTime = orElse (request_time_b b) (ReqTime r),
                  Tenant_o = orElse (tenant_b b) (Tenant_o r),
                  Path_o = orElse (path_b b) (Path_o r)\<rparr>"
  by simp

lemma page_Data:
  "Data (list_of (snd (JSON (body (response p)) (ListHolder (rs\<lparr>Data := []\<rparr>))))) = items p"
  by (simp add: list_of_def items_def)

lemma page_Metadata:
  assumes "is_page T p" "Metadata rs ''total_count'' = Some (JNumber T)"
  shows "Metadata (list_of (snd (JSON (body (response p)) (ListHolder rs)))) ''total_count''
           = Some (JNumber T)"
  using assms by (auto simp add: list_of_def is_page_def map_add_def split: option.splits)

lemma next_options_offset:
  "off \<noteq> 0 \<Longrightarrow> at (orElse (Params (next_options off ro)) Map.empty) ''offset'' = FormatInt off"
  by (simp add: next_options_def at_def orElse_def ToMap_apply split: option.splits)

lemma GetList_loop_fetch:
  assumes "ldata \<noteq> 0" "Metadata rs ''total_count'' = Some (JNumber T)"
    "offset + int (length (Data rs)) < T"
  shows "GetList_loop (Suc n) url ldata data offset ro rs a0 e0 c =
     (case doWithAuth n ''GET'' url (Some (next_options (offset + int (length (Data rs))) ro))
             (ListHolder (rs\<lparr>Data := []\<rparr>)) c of
        None \<Rightarrow> None
      | Some ((apiresp, err), ro2, rs2, c2) \<Rightarrow>
          if apiresp \<noteq> None \<or> err \<noteq> None
          then Some (Inr ((list_of rs2)\<lparr>Data := data\<rparr>, apiresp, err), Some ro2, c2)
          else GetList_loop n url ldata (data @ Data (list_of rs2))
                 (offset + int (length (Data rs))) ro2 (list_of rs2) a0 e0 c2)"
  using assms by (simp add: Let_def next_options_def)

lemma GetList_loop_done:
  assumes "ldata \<noteq> 0" "Metadata rs ''total_count'' = Some (JNumber T)"
    "T \<le> offset + int (length (Data rs))"
  shows "GetList_loop (Suc n) url ldata data offset ro rs a0 e0 c =
     Some (Inr (rs\<lparr>Data := data\<rparr>, a0, e0), Some ro, c)"
  using assms by (simp add: Let_def)


declare GetList_loop.simps [simp del] JSON.simps [simp del]

lemma GetList_loop_pages:
  "\<forall>r \<in> set ps. is_page T r \<Longrightarrow> ldata \<noteq> 0 \<Longrightarrow> apikey c \<noteq> [] \<Longrightarrow>
   Metadata rs ''total_count'' = Some (JNumber T) \<Longrightarrow> replies c = ps @- rest \<Longrightarrow>
   0 < offset + int (length (Data rs)) \<Longrightarrow>
   needed T (offset + int (length (Data rs))) (map (\<lambda>r. length (items r)) ps) \<Longrightarrow>
   \<exists>offset' ro' rs' c'.
     GetList_loop (length ps + Suc m) url ldata data offset ro rs a0 e0 c =
       GetList_loop (Suc m) url ldata (data @ concat (map items ps)) offset' ro' rs' a0 e0 c' \<and>
     apikey c' \<noteq> [] \<and> Metadata rs' ''total_count'' = Some (JNumber T) \<and> replies c' = rest \<and>
     offset' + int (length (Data rs')) =
       offset + int (length (Data rs)) + int (length (concat (map items ps))) \<and>
     map label (trace c') = map label (trace c) @ replicate (length ps) (Request ''GET'' url) \<and>
     map offset_of (trace c') =
       map offset_of (trace c) @
       map FormatInt (offsets_from (offset + int (length (Data rs))) (map (\<lambda>r. length (items r)) ps))"
proof (induction ps arbitrary: data offset ro rs c)
  case Nil
  then show ?case
    by (intro exI [of _ offset] exI [of _ ro] exI [of _ rs] exI [of _ c])
      simp
next
  case (Cons p ps)
  let ?off = "offset + int (length (Data rs))"
  let ?ro1 = "next_options ?off ro"
  let ?ro2 = "auth_headers c ?ro1"
  let ?rs2 = "list_of (snd (JSON (body (response p)) (ListHolder (rs\<lparr>Data := []\<rparr>))))"
  let ?c2 = "snd (DoRegularRequest ''GET'' url ?ro2 c)"
  have p: "shd (replies c) = p" "is_page T p" using Cons.prems by simp_all
  then have ok: "succeeds (shd (replies c))" by (simp add: is_page_def)
  have lt: "?off < T" using Cons.prems(7) by simp
  have auth: "doWithAuth (length ps + Suc m) ''GET'' url (Some ?ro1) (ListHolder (rs\<lparr>Data := []\<rparr>)) c
      = Some ((None, None), ?ro2, snd (JSON (body (response p)) (ListHolder (rs\<lparr>Data := []\<rparr>))), ?c2)"
    using doWithAuth_succeeds [OF Cons.prems(3) ok, of "length ps + m"] p(1) by simp
  have step: "GetList_loop (length (p # ps) + Suc m) url ldata data offset ro rs a0 e0 c =
      GetList_loop (length ps + Suc m) url ldata (data @ items p) ?off ?ro2 ?rs2 a0 e0 ?c2"
    using GetList_loop_fetch [OF Cons.prems(2) Cons.prems(4) lt, of "length ps + Suc m"] auth
    by (simp add: page_Data)
  have meta: "Metadata ?rs2 ''total_count'' = Some (JNumber T)"
    using page_Metadata [OF p(2), of "rs\<lparr>Data := []\<rparr>"] Cons.prems(4) by simp
  have c2: "apikey ?c2 \<noteq> []" "replies ?c2 = ps @- rest"
    using Cons.prems(3,5) by (simp_all add: DoRegularRequest_def)
  have pos: "0 < ?off + int (length (Data ?rs2))" using Cons.prems(6) by simp
  have need: "needed T (?off + int (length (Data ?rs2))) (map (\<lambda>r. length (items r)) ps)"
    using Cons.prems(7) by (simp add: page_Data)
  have pages: "\<forall>r \<in> set ps. is_page T r" using Cons.prems(1) by simp
  obtain offset' ro' rs' c' where ih:
    "GetList_loop (length ps + Suc m) url ldata (data @ items p) ?off ?ro2 ?rs2 a0 e0 ?c2 =
       GetList_loop (Suc m) url ldata ((data @ items p) @ concat (map items ps)) offset' ro' rs' a0 e0 c'"
    "apikey c' \<noteq> []" "Metadata rs' ''total_count'' = Some (JNumber T)" "replies c' = rest"
    "offset' + int (length (Data rs')) =
       ?off + int (length (Data ?rs2)) + int (length (concat (map items ps)))"
    "map label (trace c') = map label (trace ?c2) @ replicate (length ps) (Request ''GET'' url)"
    "map offset_of (trace c') =
       map offset_of (trace ?c2) @
       map FormatInt (offsets_from (?off + int (length (Data ?rs2))) (map (\<lambda>r. length (items r)) ps))"
    using Cons.IH [OF pages Cons.prems(2) c2(1) meta c2(2) pos need] by blast
  have sent: "at (orElse (Params ?ro2) Map.empty) ''offset'' = FormatInt ?off"
    using next_options_offset [of ?off ro] Cons.prems(6)
    by (simp add: auth_headers_def set_header_def)
  have a: "GetList_loop (length (p # ps) + Suc m) url ldata data offset ro rs a0 e0 c =
       GetList_loop (Suc m) url ldata (data @ concat (map items (p # ps))) offset' ro' rs' a0 e0 c'"
    using step ih(1) by simp
  have b: "offset' + int (length (Data rs')) =
       offset + int (length (Data rs)) + int (length (concat (map items (p # ps))))"
    using ih(5) by (simp add: page_Data)
  have c: "map label (trace c') =
       map label (trace c) @ replicate (length (p # ps)) (Request ''GET'' url)"
    using ih(6) by (simp add: DoRegularRequest_def)
  have d: "map offset_of (trace c') =
       map offset_of (trace c) @
       map FormatInt (offsets_from ?off (map (\<lambda>r. length (items r)) (p # ps)))"
    using ih(7) sent by (simp add: DoRegularRequest_def page_Data)
  show ?case using a b c d ih(2,3,4) by blast
qed


lemma needed_total: "off + int (sum_list ls) < T \<Longrightarrow> needed T off ls"
  by (induction ls arbitrary: off) (auto simp add: algebra_simps)

lemma needed_butlast: "ls \<noteq> [] \<Longrightarrow> off + int (sum_list (butlast ls)) < T \<Longrightarrow> needed T off ls"
proof (induction ls arbitrary: off)
  case Nil
  then show ?case by simp
next
  case (Cons l ls)
  show ?case
  proof (cases "ls = []")
    case True
    then show ?thesis using Cons.prems by simp
  next
    case False
    then have "off + int l + int (sum_list (butlast ls)) < T" using Cons.prems by simp
    then have "needed T (off + int l) ls" using Cons.IH False by blast
    moreover have "off < T" using Cons.prems False by simp
    ultimately show ?thesis by simp
  qed
qed

lemma length_items: "int (length (concat (map items ps))) = int (sum_list (map (\<lambda>r. length (items r)) ps))"
  by (simp add: length_concat comp_def)

lemma first_Data:
  "Data (list_of (snd (JSON (body (response p)) (ListHolder new_list)))) = items p"
  by (simp add: list_of_def items_def new_list_def JSON.simps)

lemma first_Metadata:
  "metadata_b (body (response p)) = Some mp \<Longrightarrow>
   Metadata (list_of (snd (JSON (body (response p)) (ListHolder new_list)))) = mp"
  by (simp add: list_of_def new_list_def JSON.simps)

lemma Params_auth_headers: "Params (auth_headers c ro) = Params ro"
  by (simp add: auth_headers_def set_header_def)

lemma GetList_first:
  assumes "apikey c \<noteq> []" "succeeds (shd (replies c))"
    "metadata_b (body (response (shd (replies c)))) = Some mp" "dom mp \<noteq> {}" "no_window ro"
  shows "GetList n url (Some ro) c =
     GetList_loop n url (length (items (shd (replies c)))) (items (shd (replies c))) 0
       (auth_headers c ro)
       (list_of (snd (JSON (body (response (shd (replies c)))) (ListHolder new_list))))
       None None (snd (DoRegularRequest ''GET'' url (auth_headers c ro) c))"
proof (cases n)
  case 0
  then show ?thesis
    by (simp add: GetList_def doWithAuth_def do_req_def Login_def hasLoggedIn_def assms(1)
        GetList_loop.simps)
next
  case (Suc k)
  show ?thesis
    using assms(4,5)
    unfolding Suc GetList_def doWithAuth_succeeds [OF assms(1,2)]
    by (auto simp add: first_Data first_Metadata [OF assms(3)] Params_auth_headers no_window_def
        split: sum.splits)
qed

lemma GetList_pages:
  assumes "apikey c \<noteq> []" "no_window ro" "replies c = (p # ps) @- rest"
    "is_first_page T p" "\<forall>r \<in> set ps. is_page T r"
    "needed T (int (length (items p))) (map (\<lambda>r. length (items r)) ps)"
  shows "\<exists>offset' ro' rs' c'.
     GetList (length ps + Suc m) url (Some ro) c =
       GetList_loop (Suc m) url (length (items p)) (concat (map items (p # ps))) offset' ro' rs'
         None None c' \<and>
     apikey c' \<noteq> [] \<and> Metadata rs' ''total_count'' = Some (JNumber T) \<and> replies c' = rest \<and>
     offset' + int (length (Data rs')) = int (length (concat (map items (p # ps)))) \<and>
     map label (trace c') = map label (trace c) @ replicate (length (p # ps)) (Request ''GET'' url) \<and>
     map offset_of (trace c') =
       map offset_of (trace c) @ at (orElse (Params ro) Map.empty) ''offset'' #
       map FormatInt (offsets_from (int (length (items p))) (map (\<lambda>r. length (items r)) ps))"
proof -
  let ?rs1 = "list_of (snd (JSON (body (response p)) (ListHolder new_list)))"
  let ?c1 = "snd (DoRegularRequest ''GET'' url (auth_headers c ro) c)"
  have p: "shd (replies c) = p" using assms(3) by simp
  obtain mp where mp: "metadata_b (body (response p)) = Some mp" "mp ''total_count'' = Some (JNumber T)"
    using assms(4) by (auto simp add: is_first_page_def split: option.splits)
  then have dom: "dom mp \<noteq> {}" by auto
  have ok: "succeeds (shd (replies c))" "items p \<noteq> []"
    using assms(4) p by (simp_all add: is_first_page_def)
  have first: "GetList (length ps + Suc m) url (Some ro) c =
      GetList_loop (length ps + Suc m) url (length (items p)) (items p) 0 (auth_headers c ro) ?rs1
        None None ?c1"
    using GetList_first [OF assms(1) ok(1) _ dom assms(2), of "length ps + Suc m" url] mp(1) p
    by simp
  have meta: "Metadata ?rs1 ''total_count'' = Some (JNumber T)"
    using first_Metadata [OF mp(1)] mp(2) by simp
  have c1: "apikey ?c1 \<noteq> []" "replies ?c1 = ps @- rest"
    using assms(1,3) by (simp_all add: DoRegularRequest_def)
  have ldata: "length (items p) \<noteq> 0" using ok(2) by simp
  have pos: "0 < 0 + int (length (Data ?rs1))" using ok(2) by (simp add: first_Data)
  have need: "needed T (0 + int (length (Data ?rs1))) (map (\<lambda>r. length (items r)) ps)"
    using assms(6) by (simp add: first_Data)
  obtain offset' ro' rs' c' where loop:
    "GetList_loop (length ps + Suc m) url (length (items p)) (items p) 0 (auth_headers c ro) ?rs1
        None None ?c1 =
       GetList_loop (Suc m) url (length (items p)) (items p @ concat (map items ps)) offset' ro' rs'
         None None c'"
    "apikey c' \<noteq> []" "Metadata rs' ''total_count'' = Some (JNumber T)" "replies c' = rest"
    "offset' + int (length (Data rs')) =
       0 + int (length (Data ?rs1)) + int (length (concat (map items ps)))"
    "map label (trace c') = map label (trace ?c1) @ replicate (length ps) (Request ''GET'' url)"
    "map offset_of (trace c') =
       map offset_of (trace ?c1) @
       map FormatInt (offsets_from (0 + int (length (Data ?rs1))) (map (\<lambda>r. length (items r)) ps))"
    using GetList_loop_pages [OF assms(5) ldata c1(1) meta c1(2) pos need] by blast
  have a: "GetList (length ps + Suc m) url (Some ro) c =
       GetList_loop (Suc m) url (length (items p)) (concat (map items (p # ps))) offset' ro' rs'
         None None c'"
    using first loop(1) by simp
  have b: "offset' + int (length (Data rs')) = int (length (concat (map items (p # ps))))"
    using loop(5) by (simp add: first_Data)
  have c: "map label (trace c') = map label (trace c) @ replicate (length (p # ps)) (Request ''GET'' url)"
    using loop(6) by (simp add: DoRegularRequest_def replicate_append_same)
  have d: "map offset_of (trace c') =
       map offset_of (trace c) @ at (orElse (Params ro) Map.empty) ''offset'' #
       map FormatInt (offsets_from (int (length (items p))) (map (\<lambda>r. length (items r)) ps))"
    using loop(7) by (simp add: DoRegularRequest_def first_Data Params_auth_headers)
  show ?thesis using a b c d loop(2,3,4) by blast
qed


lemma GetList_loop_panic:
  assumes "ldata \<noteq> 0" "\<not> has_total_count (Metadata rs)"
  shows "GetList_loop (Suc n) url ldata data offset ro rs a0 e0 c =
     Some (Inl TypeAssertionPanic, Some ro, c)"
  using assms
  by (auto simp add: GetList_loop.simps has_total_count_def split: option.splits json.splits)

text \<open>
  Claim C4, as amended. A \<open>GetList\<close> call with options (not nil) that name no limit and
  no offset, on a connection with a token, whose first page succeeds with at least one
  item and a numeric total count, and whose further pages succeed: as long as the items
  so far are fewer than the total count, the next page is fetched at the offset equal
  to the number of items so far, and its items are appended in order; when the count
  reaches the total the call returns all items, after exactly one request per page.
\<close>

theorem GetList_accumulates_pages:
  assumes "apikey c \<noteq> []" "no_window ro" "replies c = (p # ps) @- rest"
    "is_first_page T p" "\<forall>r \<in> set ps. is_page T r" "ps \<noteq> []"
    "int (length (concat (map items (butlast (p # ps))))) < T"
    "T \<le> int (length (concat (map items (p # ps))))"
  shows "\<exists>rs ro' c'.
     GetList (length ps + Suc m) url (Some ro) c = Some (Inr (rs, None, None), Some ro', c') \<and>
     Data rs = concat (map items (p # ps)) \<and> replies c' = rest \<and>
     map label (trace c') = map label (trace c) @ replicate (length (p # ps)) (Request ''GET'' url) \<and>
     map offset_of (trace c') =
       map offset_of (trace c) @ at (orElse (Params ro) Map.empty) ''offset'' #
       map FormatInt (offsets_from (int (length (items p))) (map (\<lambda>r. length (items r)) ps))"
proof -
  have "int (length (items p)) + int (sum_list (butlast (map (\<lambda>r. length (items r)) ps))) < T"
    using assms(6,7) by (simp add: length_concat comp_def map_butlast)
  then have need: "needed T (int (length (items p))) (map (\<lambda>r. length (items r)) ps)"
    using assms(6) by (intro needed_butlast) simp_all
  obtain offset' ro' rs' c' where run:
    "GetList (length ps + Suc m) url (Some ro) c =
       GetList_loop (Suc m) url (length (items p)) (concat (map items (p # ps))) offset' ro' rs'
         None None c'"
    "Metadata rs' ''total_count'' = Some (JNumber T)" "replies c' = rest"
    "offset' + int (length (Data rs')) = int (length (concat (map items (p # ps))))"
    "map label (trace c') = map label (trace c) @ replicate (length (p # ps)) (Request ''GET'' url)"
    "map offset_of (trace c') =
       map offset_of (trace c) @ at (orElse (Params ro) Map.empty) ''offset'' #
       map FormatInt (offsets_from (int (length (items p))) (map (\<lambda>r. length (items r)) ps))"
    using GetList_pages [OF assms(1,2,3,4,5) need, of m url] by blast
  have ldata: "length (items p) \<noteq> 0" using assms(4) by (simp add: is_first_page_def)
  have "T \<le> offset' + int (length (Data rs'))" using run(4) assms(8) by simp
  then have "GetList (length ps + Suc m) url (Some ro) c =
      Some (Inr (rs'\<lparr>Data := concat (map items (p # ps))\<rparr>, None, None), Some ro', c')"
    using run(1) GetList_loop_done [OF ldata run(2)] by simp
  then show ?thesis using run(3,5,6) by auto
qed

text \<open>
  Claim C3, as amended. When \<open>GetList\<close> is paginating and the fetch of a further page
  fails (here: is answered with a failure status that is neither 401 nor retried), the
  failure is returned together with the items of all pages fetched before it, in
  order: the accumulation is kept, not discarded.
\<close>

theorem GetList_failure_keeps_pages:
  assumes "apikey c \<noteq> []" "no_window ro" "replies c = (p # ps) @- (f ## rest)"
    "is_first_page T p" "\<forall>r \<in> set ps. is_page T r" "rejects f"
    "int (length (concat (map items (p # ps)))) < T"
  shows "\<exists>rs ro' c'.
     GetList (length ps + Suc (Suc m)) url (Some ro) c =
       Some (Inr (rs, fst (translateErrors (response f) None), None), Some ro', c') \<and>
     Data rs = concat (map items (p # ps)) \<and>
     fst (translateErrors (response f) None) \<noteq> None \<and> replies c' = rest \<and>
     map label (trace c') = map label (trace c) @ replicate (length ps + 2) (Request ''GET'' url)"
proof -
  have "int (length (items p)) + int (sum_list (map (\<lambda>r. length (items r)) ps)) < T"
    using assms(7) by (simp add: length_concat comp_def)
  then have need: "needed T (int (length (items p))) (map (\<lambda>r. length (items r)) ps)"
    by (rule needed_total)
  obtain offset' ro' rs' c' where run:
    "GetList (length ps + Suc (Suc m)) url (Some ro) c =
       GetList_loop (Suc (Suc m)) url (length (items p)) (concat (map items (p # ps))) offset' ro' rs'
         None None c'"
    "apikey c' \<noteq> []"
    "Metadata rs' ''total_count'' = Some (JNumber T)" "replies c' = f ## rest"
    "offset' + int (length (Data rs')) = int (length (concat (map items (p # ps))))"
    "map label (trace c') = map label (trace c) @ replicate (length (p # ps)) (Request ''GET'' url)"
    using GetList_pages [OF assms(1,2,3,4,5) need, of "Suc m" url] by blast
  let ?ro1 = "next_options (offset' + int (length (Data rs'))) ro'"
  let ?c2 = "snd (DoRegularRequest ''GET'' url (auth_headers c' ?ro1) c')"
  have ldata: "length (items p) \<noteq> 0" using assms(4) by (simp add: is_first_page_def)
  have lt: "offset' + int (length (Data rs')) < T" using run(5) assms(7) by simp
  have f: "rejects (shd (replies c'))" using run(4) assms(6) by simp
  have e: "fst (translateErrors (response f) None) \<noteq> None" using assms(6) by (rule rejects_error)
  have "GetList_loop (Suc (Suc m)) url (length (items p)) (concat (map items (p # ps))) offset' ro' rs'
         None None c' =
      Some (Inr ((rs'\<lparr>Data := []\<rparr>)\<lparr>Data := concat (map items (p # ps))\<rparr>,
                 fst (translateErrors (response f) None), None),
            Some (auth_headers c' ?ro1), ?c2)"
    using GetList_loop_fetch [OF ldata run(3) lt, of "Suc m"] doWithAuth_rejects [OF run(2) f, of m]
      e run(4)
    by (simp add: list_of_def)
  moreover have "replies ?c2 = rest" using run(4) by (simp add: DoRegularRequest_def)
  moreover have "map label (trace ?c2) =
      map label (trace c) @ replicate (length ps + 2) (Request ''GET'' url)"
    using run(6) by (simp add: DoRegularRequest_def replicate_append_same)
  ultimately show ?thesis using run(1) e by auto
qed

text \<open>
  Claim C10, as amended. A \<open>GetList\<close> call with options (not nil) that name no limit
  and no offset, whose first page succeeds with at least one item and with metadata
  that are not empty and hold no number under \<open>total_count\<close>, panics in the type
  assertion after the one request.
\<close>

theorem GetList_panics_without_total_count:
  assumes "apikey c \<noteq> []" "no_window ro" "succeeds (shd (replies c))"
    "items (shd (replies c)) \<noteq> []"
    "metadata_b (body (response (shd (replies c)))) = Some mp" "dom mp \<noteq> {}"
    "\<not> has_total_count mp"
  shows "GetList (Suc n) url (Some ro) c =
     Some (Inl TypeAssertionPanic, Some (auth_headers c ro),
           snd (DoRegularRequest ''GET'' url (auth_headers c ro) c))"
proof -
  have "length (items (shd (replies c))) \<noteq> 0" using assms(4) by simp
  moreover have "\<not> has_total_count
      (Metadata (list_of (snd (JSON (body (response (shd (replies c)))) (ListHolder new_list)))))"
    using assms(7) first_Metadata [OF assms(5)] by simp
  ultimately show ?thesis
    using GetList_first [OF assms(1,3,5,6,2), of "Suc n" url] by (simp add: GetList_loop_panic)
qed


lemma numbered_page_facts:
  "succeeds (numbered_page i j T)"
  "items (numbered_page i j T) = map (\<lambda>k. JNumber (int k)) [i..<j]"
  "is_page T (numbered_page i j T)"
  "i < j \<Longrightarrow> is_first_page T (numbered_page i j T)"
  by (simp_all add: numbered_page_def page_reply_def ok_reply_def no_body_def succeeds_def
      items_def orElse_def is_page_def is_first_page_def)

lemma no_window_no_options: "no_window no_options"
  by (simp add: no_window_def no_options_def orElse_def ListParamsFromMap_def at_def)

lemma FormatInt_examples: "FormatInt 50 = ''50''" "FormatInt 100 = ''100''" "FormatInt 2 = ''2''"
  by (simp_all add: FormatInt_def digits10.simps char_of_def bit_0)

theorem GetList_accumulates_pages_witness:
  "\<exists>rs ro' c'.
     GetList 3 ''volumes'' (Some no_options)
       (connection ''k0'' ([numbered_page 0 50 120, numbered_page 50 100 120, numbered_page 100 120 120]
                             @- sconst (status_reply 400)))
       = Some (Inr (rs, None, None), Some ro', c') \<and>
     Data rs = map (\<lambda>k. JNumber (int k)) [0..<50] @ map (\<lambda>k. JNumber (int k)) [50..<100] @
               map (\<lambda>k. JNumber (int k)) [100..<120] \<and>
     length (Data rs) = 120 \<and>
     replies c' = sconst (status_reply 400) \<and>
     map label (trace c') =
       [Request ''GET'' ''volumes'', Request ''GET'' ''volumes'', Request ''GET'' ''volumes''] \<and>
     map offset_of (trace c') = [Nil, ''50'', ''100'']"
proof -
  let ?c = "connection ''k0'' ([numbered_page 0 50 120, numbered_page 50 100 120, numbered_page 100 120 120]
                             @- sconst (status_reply 400))"
  have a: "apikey ?c \<noteq> []" by (simp add: connection_def)
  have b: "replies ?c = (numbered_page 0 50 120 # [numbered_page 50 100 120, numbered_page 100 120 120])
             @- sconst (status_reply 400)"
    by (simp add: connection_def)
  have c: "is_first_page 120 (numbered_page 0 50 120)" by (simp add: numbered_page_facts)
  have d: "\<forall>r \<in> set [numbered_page 50 100 120, numbered_page 100 120 120]. is_page 120 r"
    by (simp add: numbered_page_facts)
  have e: "[numbered_page 50 100 120, numbered_page 100 120 120] \<noteq> []" by simp
  have f: "int (length (concat (map items (butlast (numbered_page 0 50 120 #
              [numbered_page 50 100 120, numbered_page 100 120 120]))))) < 120"
    by (simp add: numbered_page_facts)
  have g: "120 \<le> int (length (concat (map items (numbered_page 0 50 120 #
              [numbered_page 50 100 120, numbered_page 100 120 120]))))"
    by (simp add: numbered_page_facts)
  have h: "trace ?c = []" "at (orElse (Params no_options) Map.empty) ''offset'' = []"
    by (simp_all add: connection_def no_options_def orElse_def at_def)
  show ?thesis
    using GetList_accumulates_pages [OF a no_window_no_options b c d e f g, of 0 "''volumes''"] h
    by (auto simp add: numbered_page_facts FormatInt_examples eval_nat_numeral)
qed


lemmas list_defs = GetList_def GetList_loop.simps list_observed_def list_of_def new_list_def
  JSON.simps ListParamsFromMap_def at_def numbered_page_def

text \<open>
  Claim C4 as stated fails for a first page without items: the loop is not entered,
  whatever the total count.
\<close>

theorem GetList_empty_first_page_counterexample:
  "list_observed (GetList 3 ''volumes'' (Some no_options)
       (connection ''k0'' (page_reply [] [''total_count'' \<mapsto> JNumber 5] ## sconst (numbered_page 0 5 5))))
     = Some (Inr ([], None, None), [Request ''GET'' ''volumes''])"
  by (simp add: list_defs run_defs eval_nat_numeral)

theorem GetList_failure_keeps_pages_witness:
  "\<exists>rs ro' c'.
     GetList 3 ''volumes'' (Some no_options)
       (connection ''k0'' ([numbered_page 0 2 5, numbered_page 2 3 5] @- sconst (status_reply 400)))
       = Some (Inr (rs, Some (new_error\<lparr>Http := 400\<rparr>), None), Some ro', c') \<and>
     Data rs = [JNumber 0, JNumber 1, JNumber 2] \<and>
     map label (trace c') =
       [Request ''GET'' ''volumes'', Request ''GET'' ''volumes'', Request ''GET'' ''volumes'']"
proof -
  let ?c = "connection ''k0'' ([numbered_page 0 2 5, numbered_page 2 3 5] @- sconst (status_reply 400))"
  have a: "apikey ?c \<noteq> []" by (simp add: connection_def)
  have b: "replies ?c = (numbered_page 0 2 5 # [numbered_page 2 3 5])
             @- (status_reply 400 ## sconst (status_reply 400))"
    by (simp add: connection_def) (subst siterate.ctr, simp)
  have c: "is_first_page 5 (numbered_page 0 2 5)" by (simp add: numbered_page_facts)
  have d: "\<forall>r \<in> set [numbered_page 2 3 5]. is_page 5 r" by (simp add: numbered_page_facts)
  have e: "rejects (status_reply 400)" by (simp add: rejects_def status_reply_def status_defs)
  have f: "int (length (concat (map items (numbered_page 0 2 5 # [numbered_page 2 3 5])))) < 5"
    by (simp add: numbered_page_facts)
  have h: "trace ?c = []" "fst (translateErrors (response (status_reply 400)) None)
      = Some (new_error\<lparr>Http := 400\<rparr>)"
    by (simp_all add: connection_def translateErrors_def status_reply_def new_error_def)
  show ?thesis
    using GetList_failure_keeps_pages [OF a no_window_no_options b c d e f, of 0 "''volumes''"] h
    by (auto simp add: numbered_page_facts eval_nat_numeral)
qed

text \<open>
  Claim C3 as stated fails: two pages with three items in all, then a 400; the three
  items are returned with the failure.
\<close>

theorem GetList_failure_keeps_pages_counterexample:
  "list_observed (GetList 3 ''volumes'' (Some no_options)
       (connection ''k0'' ([numbered_page 0 2 5, numbered_page 2 3 5] @- sconst (status_reply 400))))
     = Some (Inr ([JNumber 0, JNumber 1, JNumber 2], Some (new_error\<lparr>Http := 400\<rparr>), None),
             [Request ''GET'' ''volumes'', Request ''GET'' ''volumes'', Request ''GET'' ''volumes''])"
  by (simp add: list_defs run_defs eval_nat_numeral)

theorem GetList_panics_without_total_count_witness:
  "list_observed (GetList 2 ''volumes'' (Some no_options)
       (connection ''k0'' (sconst (page_reply [JString ''vol1''] [''count'' \<mapsto> JNumber 1]))))
     = Some (Inl TypeAssertionPanic, [Request ''GET'' ''volumes''])"
proof -
  let ?p = "page_reply [JString ''vol1''] [''count'' \<mapsto> JNumber 1]"
  let ?c = "connection ''k0'' (sconst ?p)"
  have p: "shd (replies ?c) = ?p" by (simp add: connection_def)
  have a: "apikey ?c \<noteq> []" by (simp add: connection_def)
  have b: "succeeds (shd (replies ?c))"
    unfolding p by (simp add: page_reply_def ok_reply_def no_body_def succeeds_def)
  have c: "items (shd (replies ?c)) \<noteq> []"
    unfolding p by (simp add: page_reply_def ok_reply_def no_body_def items_def orElse_def)
  have d: "metadata_b (body (response (shd (replies ?c)))) = Some [''count'' \<mapsto> JNumber 1]"
    unfolding p by (simp add: page_reply_def ok_reply_def no_body_def)
  have e: "dom [''count'' \<mapsto> JNumber 1] \<noteq> {}" by simp
  have f: "\<not> has_total_count [''count'' \<mapsto> JNumber 1]" by (simp add: has_total_count_def)
  show ?thesis
    using GetList_panics_without_total_count [OF a no_window_no_options b c d e f, of 1 "''volumes''"]
    by (simp add: list_observed_def DoRegularRequest_def connection_def eval_nat_numeral)
qed

text \<open>
  Claim C10 as stated fails for a first page without items: no type assertion is
  evaluated and the call returns.
\<close>

theorem GetList_no_panic_counterexample:
  "list_observed (GetList 2 ''volumes'' (Some no_options)
       (connection ''k0'' (sconst (page_reply [] [''count'' \<mapsto> JNumber 0]))))
     = Some (Inr ([], None, None), [Request ''GET'' ''volumes''])"
  by (simp add: list_defs run_defs eval_nat_numeral)


end
